theory Spec2Isabelle
  imports Complex_Main
begin

section \<open>Numeric conversions of the C++ source\<close>

text \<open>
  The sources compute in \<^verbatim>\<open>float\<close> and store into fixed-width integers. Floats are
  modelled by \<^typ>\<open>real\<close> (no rounding error, no infinities, no NaN); integers by
  \<^typ>\<open>int\<close>, with every narrowing conversion of the source written out.
\<close>

definition u8_of :: "int \<Rightarrow> int" where
  "u8_of v = v mod 256"

definition u16_of :: "int \<Rightarrow> int" where
  "u16_of v = v mod 65536"

definition u32_of :: "int \<Rightarrow> int" where
  "u32_of v = v mod 4294967296"

definition i16_of :: "int \<Rightarrow> int" where
  "i16_of v = (v + 32768) mod 65536 - 32768"

text \<open>Conversion of a float to an integer type: the fraction is discarded.\<close>

definition float_to_int :: "real \<Rightarrow> int" where
  "float_to_int v = (if 0 \<le> v then \<lfloor>v\<rfloor> else \<lceil>v\<rceil>)"

text \<open>\<^verbatim>\<open>lrint\<close>: the nearest integer, a tie going to the even neighbour.\<close>

definition lrint :: "real \<Rightarrow> int" where
  "lrint v =
     (let f = \<lfloor>v\<rfloor>; d = v - of_int f
      in if d < 1 / 2 then f
         else if 1 / 2 < d then f + 1
         else if even f then f else f + 1)"

section \<open>Kinematics.cpp\<close>

subsection \<open>Constants of Kinematics.h\<close>

text \<open>
  The header with the limb lengths, joint limits and conversion factors is not part of
  the sources. Its constants are the fields of a record that every function takes as its
  first argument. Offsets and limits are whole degrees.
\<close>

record kin_config =
  LIMB_1 :: real
  LIMB_2 :: real
  LIMB_3 :: real
  SHOULDER_FOOT_MIN :: real
  SHOULDER_FOOT_MAX :: real
  M1_OFFSET :: int
  M2_OFFSET :: int
  M3_OFFSET :: int
  M1_MIN :: int
  M1_MAX :: int
  M2_MIN :: int
  M2_MAX :: int
  M3_MIN :: int
  M3_MAX :: int
  DEGREES_TO_MICROS :: real
  MAX_SPEED_INVERSE :: real

text \<open>Sample values, used to run the definitions on concrete input.\<close>

definition sample_config :: kin_config where
  "sample_config =
     \<lparr> LIMB_1 = 10, LIMB_2 = 30, LIMB_3 = 40,
       SHOULDER_FOOT_MIN = 15, SHOULDER_FOOT_MAX = 45,
       M1_OFFSET = 90, M2_OFFSET = 90, M3_OFFSET = 90,
       M1_MIN = 45, M1_MAX = 135, M2_MIN = 0, M2_MAX = 180, M3_MIN = 30, M3_MAX = 150,
       DEGREES_TO_MICROS = 10, MAX_SPEED_INVERSE = 2 \<rparr>"

subsection \<open>Encoding of an angle as a pulse width\<close>

text \<open>
  \<^verbatim>\<open>uint16_t _degreesToMicros(uint8_t inputDegrees, uint8_t calibOffset)\<close>: both
  parameters are eight bits wide, so an argument is reduced modulo 256 on entry; the
  \<^verbatim>\<open>int\<close> result is returned as \<^verbatim>\<open>uint16_t\<close>.
\<close>

definition degreesToMicros :: "kin_config \<Rightarrow> int \<Rightarrow> int \<Rightarrow> int" where
  "degreesToMicros c inputDegrees calibOffset =
     (let d = u8_of inputDegrees;
          k = u8_of calibOffset;
          microsecondsInput = float_to_int (DEGREES_TO_MICROS c * of_int d + 500 + of_int k)
      in u16_of microsecondsInput)"

subsection \<open>The three stages of the solver\<close>

text \<open>
  \<^verbatim>\<open>solveFtShldrLength(demandFtShldr, *demandAngle2, *demandAngle3)\<close>. The two angle
  accumulators are passed in and returned. The length is clamped into
  \<open>_demandFtShldrLength\<close>; the Law of Cosines on the next line reads the parameter
  \<open>demandFtShldr\<close>.
\<close>

definition clampFtShldrLength :: "kin_config \<Rightarrow> real \<Rightarrow> real" where
  "clampFtShldrLength c demandFtShldr =
     (if demandFtShldr > SHOULDER_FOOT_MAX c then SHOULDER_FOOT_MAX c
      else if demandFtShldr < SHOULDER_FOOT_MIN c then SHOULDER_FOOT_MIN c
      else demandFtShldr)"

definition lawOfCosines :: "kin_config \<Rightarrow> real \<Rightarrow> real" where
  "lawOfCosines c len =
     arccos ((len ^ 2 - (LIMB_2 c) ^ 2 - (LIMB_3 c) ^ 2) / (- 2 * LIMB_2 c * LIMB_3 c)) * 180 / pi"

definition solveFtShldrLength :: "kin_config \<Rightarrow> real \<Rightarrow> real \<Rightarrow> real \<Rightarrow> real \<times> real" where
  "solveFtShldrLength c demandFtShldr demandAngle2 demandAngle3 =
     (let demandFtShldrLength' = clampFtShldrLength c demandFtShldr;
          demandAngle3' = lawOfCosines c demandFtShldr;
          demandAngle2' = (180 - demandAngle3') / 2
      in (demandAngle2 + demandAngle2', demandAngle3 + demandAngle3'))"

text \<open>
  \<^verbatim>\<open>solveXMove(int16_t inputX, int16_t inputZ, *demandAngle2, *demandFtShldrLength)\<close>:
  both outputs are assigned, not accumulated.
\<close>

definition solveXMove :: "int \<Rightarrow> int \<Rightarrow> real \<times> real" where
  "solveXMove inputX inputZ =
     (let inputZ' = (if inputZ = 0 then 1 else inputZ);
          demandFtShldrLength = sqrt ((of_int \<bar>inputZ'\<bar>) ^ 2 + (of_int \<bar>inputX\<bar>) ^ 2);
          demandAngle2 = arctan (of_int \<bar>inputX\<bar> / of_int \<bar>inputZ'\<bar>) * 180 / pi
      in (if inputX > 0 then demandAngle2 * (- 1) else demandAngle2, demandFtShldrLength))"

text \<open>
  \<^verbatim>\<open>solveYMove(int16_t inputY, int16_t inputZ, *demandAngle1, *yPlaneZOutput)\<close>: the
  first output is accumulated, the second assigned.
\<close>

definition solveYMove :: "kin_config \<Rightarrow> int \<Rightarrow> int \<Rightarrow> real \<Rightarrow> real \<times> real" where
  "solveYMove c inputY inputZ demandAngle1 =
     (let demandFtShldrLength = sqrt ((of_int \<bar>inputZ\<bar>) ^ 2 + (of_int \<bar>inputY\<bar>) ^ 2);
          yPlaneZOutput = sqrt (\<bar>demandFtShldrLength\<bar> ^ 2 - \<bar>LIMB_1 c\<bar> ^ 2);
          theta = \<bar>arctan (of_int inputY / of_int inputZ) * 180 / pi\<bar>;
          alpha = arccos (LIMB_1 c / demandFtShldrLength) * 180 / pi;
          a = (if inputY \<ge> 0 then demandAngle1 + \<bar>90 - (theta + alpha)\<bar>
               else demandAngle1 + \<bar>90 - (alpha - theta)\<bar>)
      in (if of_int inputY < LIMB_1 c then a * (- 1) else a, yPlaneZOutput))"

text \<open>
  The divisors of each stage, in source order: a quotient of floats does not trap, so a
  zero divisor is visible only here. \<open>solveYMove\<close> divides by \<open>(float)inputZ\<close>, by
  \<open>PI\<close>, by the foot-shoulder distance and by \<open>PI\<close>; \<open>solveXMove\<close> by
  \<open>(float)abs(inputZ)\<close> after its guard and by \<open>PI\<close>; \<open>solveFtShldrLength\<close> by
  \<open>-2 * LIMB_2 * LIMB_3\<close>, by \<open>PI\<close> and by 2.
\<close>

definition solveYMove_divisors :: "int \<Rightarrow> int \<Rightarrow> real list" where
  "solveYMove_divisors inputY inputZ =
     [of_int inputZ, pi, sqrt ((of_int \<bar>inputZ\<bar>) ^ 2 + (of_int \<bar>inputY\<bar>) ^ 2), pi]"

definition solveXMove_divisors :: "int \<Rightarrow> int \<Rightarrow> real list" where
  "solveXMove_divisors inputX inputZ =
     (let inputZ' = (if inputZ = 0 then 1 else inputZ) in [of_int \<bar>inputZ'\<bar>, pi])"

definition solveFtShldrLength_divisors :: "kin_config \<Rightarrow> real list" where
  "solveFtShldrLength_divisors c = [- 2 * LIMB_2 c * LIMB_3 c, pi, 2]"

subsection \<open>Joint limits and the solver\<close>

text \<open>
  \<^verbatim>\<open>_applyConstraints(motor, demandAngle)\<close>: a motor index other than 1, 2, 3 ends in
  \<^verbatim>\<open>while(1);\<close>, so the function does not return: \<open>None\<close>.
\<close>

definition applyConstraints :: "kin_config \<Rightarrow> nat \<Rightarrow> int \<Rightarrow> int option" where
  "applyConstraints c motor demandAngle =
     (if motor = 1 then
        (if demandAngle > M1_MAX c then Some (M1_MAX c)
         else if demandAngle < M1_MIN c then Some (M1_MIN c)
         else Some demandAngle)
      else if motor = 2 then
        (if demandAngle > M2_MAX c then Some (M2_MAX c)
         else if demandAngle < M2_MIN c then Some (M2_MIN c)
         else Some demandAngle)
      else if motor = 3 then
        (if demandAngle > M3_MAX c then Some (M3_MAX c)
         else if demandAngle < M3_MIN c then Some (M3_MIN c)
         else Some demandAngle)
      else None)"

text \<open>
  \<^verbatim>\<open>solveFootPosition(inputX, inputY, inputZ, *motor1AngleP, *motor2AngleP, *motor3AngleP)\<close>:
  the result is the triple written through the three \<^verbatim>\<open>uint16_t\<close> pointers. The float
  \<open>yPlaneZOutput\<close> is passed to the \<^verbatim>\<open>int16_t\<close> parameter of \<open>solveXMove\<close>.
\<close>

definition solveFootPosition :: "kin_config \<Rightarrow> int \<Rightarrow> int \<Rightarrow> int \<Rightarrow> (int \<times> int \<times> int) option" where
  "solveFootPosition c inputX inputY inputZ =
     (let (demandAngle1, yPlaneZOutput) = solveYMove c inputY inputZ 0;
          (demandAngle2, demandFtShldrLength) = solveXMove inputX (i16_of (float_to_int yPlaneZOutput));
          (demandAngle2', demandAngle3) = solveFtShldrLength c demandFtShldrLength demandAngle2 0;
          r1 = lrint demandAngle1 + M1_OFFSET c;
          r2 = lrint demandAngle2' + M2_OFFSET c;
          r3 = (M3_OFFSET c - lrint demandAngle3) + M3_OFFSET c
      in case applyConstraints c 1 r1 of None \<Rightarrow> None
         | Some a1 \<Rightarrow>
        (case applyConstraints c 2 r2 of None \<Rightarrow> None
         | Some a2 \<Rightarrow>
        (case applyConstraints c 3 r3 of None \<Rightarrow> None
         | Some a3 \<Rightarrow> Some (u16_of a1, u16_of a2, u16_of a3))))"

subsection \<open>The value interpolators\<close>

text \<open>
  The interpolator class (\<open>dynamicX\<close>, \<open>footPosX\<close>, ...) belongs to a library outside
  the sources. An interpolator is modelled by the calls it has received, oldest first;
  the value its \<open>update()\<close> returns is a function \<open>val\<close> of that history, which the
  functions sampling an interpolator take as a parameter, together with the clock.
\<close>

datatype ramp_mode = LINEAR

datatype loop_mode = ONCEFORWARD | FORTHANDBACK

datatype ramp_call =
    Go real
  | GoTimed real int ramp_mode loop_mode
  | Update int

type_synonym ramp = "ramp_call list"

definition ramp_go :: "real \<Rightarrow> ramp \<Rightarrow> ramp" where
  "ramp_go v r = r @ [Go v]"

definition ramp_go_timed :: "real \<Rightarrow> int \<Rightarrow> ramp_mode \<Rightarrow> loop_mode \<Rightarrow> ramp \<Rightarrow> ramp" where
  "ramp_go_timed v duration m l r = r @ [GoTimed v duration m l]"

definition ramp_update :: "(ramp \<Rightarrow> real) \<Rightarrow> int \<Rightarrow> ramp \<Rightarrow> real \<times> ramp" where
  "ramp_update val now r = (val (r @ [Update now]), r @ [Update now])"

text \<open>A sample interpolator: it is always at the target of its last command.\<close>

fun target_after :: "real \<Rightarrow> ramp \<Rightarrow> real" where
  "target_after v [] = v"
| "target_after v (Go w # r) = target_after w r"
| "target_after v (GoTimed w d m l # r) = target_after w r"
| "target_after v (Update t # r) = target_after v r"

definition last_target :: "ramp \<Rightarrow> real" where
  "last_target r = target_after 0 r"

subsection \<open>The state of a leg's solver\<close>

record motor =
  angleDegrees :: int
  angleMicros :: int
  dynamicDegrees :: int
  dynamicMicros :: int
  previousDegrees :: int
  calibOffset :: int

record kinematics =
  motor1 :: motor
  motor2 :: motor
  motor3 :: motor
  dynamicX :: ramp
  dynamicY :: ramp
  dynamicZ :: ramp

text \<open>
  \<^verbatim>\<open>setFootEndpoint(inputX, inputY, inputZ)\<close>. The \<^verbatim>\<open>uint16_t\<close> angles are promoted to
  \<^verbatim>\<open>int\<close> (wider than 16 bits) before the subtraction; \<open>lrint\<close>'s \<^verbatim>\<open>long\<close> is stored
  into the \<^verbatim>\<open>uint16_t\<close> \<open>demandTime\<close>. The function returns when the solver does.
\<close>

definition setFootEndpoint :: "kin_config \<Rightarrow> int \<Rightarrow> int \<Rightarrow> int \<Rightarrow> kinematics \<Rightarrow> kinematics option" where
  "setFootEndpoint c inputX inputY inputZ k =
     (case solveFootPosition c inputX inputY inputZ of None \<Rightarrow> None
      | Some (a1, a2, a3) \<Rightarrow>
        (let k1 = k\<lparr> motor1 := (motor1 k)\<lparr>angleDegrees := a1\<rparr>,
                     motor2 := (motor2 k)\<lparr>angleDegrees := a2\<rparr>,
                     motor3 := (motor3 k)\<lparr>angleDegrees := a3\<rparr> \<rparr>;
             motor1AngleDelta = u16_of \<bar>angleDegrees (motor1 k1) - previousDegrees (motor1 k1)\<bar>;
             motor2AngleDelta = u16_of \<bar>angleDegrees (motor2 k1) - previousDegrees (motor2 k1)\<bar>;
             motor3AngleDelta = u16_of \<bar>angleDegrees (motor3 k1) - previousDegrees (motor3 k1)\<bar>;
             demandTime = u16_of (lrint (MAX_SPEED_INVERSE c *
               of_int (max (max motor1AngleDelta motor2AngleDelta) motor3AngleDelta)))
         in if previousDegrees (motor1 k1) \<noteq> angleDegrees (motor1 k1) \<or>
               previousDegrees (motor2 k1) \<noteq> angleDegrees (motor2 k1) \<or>
               previousDegrees (motor3 k1) \<noteq> angleDegrees (motor3 k1)
            then Some (k1\<lparr> motor1 := (motor1 k1)\<lparr>previousDegrees := angleDegrees (motor1 k1)\<rparr>,
                           motor2 := (motor2 k1)\<lparr>previousDegrees := angleDegrees (motor2 k1)\<rparr>,
                           motor3 := (motor3 k1)\<lparr>previousDegrees := angleDegrees (motor3 k1)\<rparr>,
                           dynamicX := ramp_go_timed (of_int inputX) demandTime LINEAR ONCEFORWARD (dynamicX k1),
                           dynamicY := ramp_go_timed (of_int inputY) demandTime LINEAR ONCEFORWARD (dynamicY k1),
                           dynamicZ := ramp_go_timed (of_int inputZ) demandTime LINEAR ONCEFORWARD (dynamicZ k1) \<rparr>)
            else Some k1))"

text \<open>
  \<^verbatim>\<open>updateDynamicFootPosition()\<close>: the three sampled values are passed to the
  \<^verbatim>\<open>int16_t\<close> parameters of the solver.
\<close>

definition updateDynamicFootPosition ::
    "kin_config \<Rightarrow> (ramp \<Rightarrow> real) \<Rightarrow> int \<Rightarrow> kinematics \<Rightarrow> kinematics option" where
  "updateDynamicFootPosition c val now k =
     (let (vx, rx) = ramp_update val now (dynamicX k);
          (vy, ry) = ramp_update val now (dynamicY k);
          (vz, rz) = ramp_update val now (dynamicZ k)
      in case solveFootPosition c (i16_of (float_to_int vx)) (i16_of (float_to_int vy))
                (i16_of (float_to_int vz)) of None \<Rightarrow> None
         | Some (a1, a2, a3) \<Rightarrow>
           Some (k\<lparr> dynamicX := rx, dynamicY := ry, dynamicZ := rz,
                    motor1 := (motor1 k)\<lparr> dynamicDegrees := a1,
                      dynamicMicros := degreesToMicros c a1 (calibOffset (motor1 k)) \<rparr>,
                    motor2 := (motor2 k)\<lparr> dynamicDegrees := a2,
                      dynamicMicros := degreesToMicros c a2 (calibOffset (motor2 k)) \<rparr>,
                    motor3 := (motor3 k)\<lparr> dynamicDegrees := a3,
                      dynamicMicros := degreesToMicros c a3 (calibOffset (motor3 k)) \<rparr> \<rparr>))"

text \<open>A solver state as the constructor leaves it: previous angles 360, calibration offsets 0.\<close>

definition sample_kinematics :: kinematics where
  "sample_kinematics =
     (let m = \<lparr> angleDegrees = 0, angleMicros = 500, dynamicDegrees = 0, dynamicMicros = 500,
                 previousDegrees = 360, calibOffset = 0 \<rparr>
      in \<lparr> motor1 = m, motor2 = m, motor3 = m,
           dynamicX = [Go 0], dynamicY = [Go 0], dynamicZ = [Go 100] \<rparr>)"

section \<open>The step planner\<close>

subsection \<open>Constants and types of StepPlanner.h\<close>

text \<open>
  The header is not part of the sources. Its two numeric constants are the fields of a
  record passed to the functions that use them; both are taken to be integers. The leg
  identities and the phases are the ones \<open>update\<close> and \<open>getStepHeight\<close> switch over.
\<close>

record planner_consts =
  TIME_TO_UPDATE :: int
  GAIT_POSITION_INCREMENT :: int

datatype LegID = LEG_1 | LEG_2 | LEG_3 | LEG_4

datatype LegMode =
  STANDING | FIRST_STEP_ARC | FIRST_STEP_DRAW_BACK | ACTIVE_WALKING_ARC | ACTIVE_WALKING_DRAW_BACK

text \<open>
  Modelled from the spec: the enumeration \<open>ROBOT_MODE\<close> is declared in the missing
  header; the sources use \<open>WALKING\<close> only, and the comment of \<open>update\<close> names a
  static standing mode beside it.
\<close>

datatype ROBOT_MODE = WALKING | STATIC_STANDING

text \<open>
  Modelled from the spec: the enumeration \<open>GaitType\<close> and \<open>DEFAULT_GAIT\<close> are
  declared in the missing header; the spec has one gait profile, TROT, the only one
  \<open>init\<close> fills in, which is then the default.
\<close>

datatype GaitType = TROT

definition DEFAULT_GAIT :: GaitType where
  "DEFAULT_GAIT = TROT"

text \<open>
  The structs of the header, with their fields as the sources use them: the gait
  constants are read into floats, the step endpoint is assigned floats, x and y of the
  foot position are assigned interpolator samples and z the \<^verbatim>\<open>int16_t\<close> step height.
\<close>

record gait =
  amplitude :: real
  periodHalf :: real

record foot_position =
  pos_x :: real
  pos_y :: real
  pos_z :: int

record step_endpoint =
  ep_x :: real
  ep_y :: real

record planner =
  legID :: LegID
  legMode :: LegMode
  gaitType :: GaitType
  robotHeight :: int
  gaits :: "GaitType \<Rightarrow> gait"
  footXYDrop :: int
  previousUpdateTime :: int
  wasAtOrigin :: bool
  dynamicFootPosition :: foot_position
  stepEndpoint :: step_endpoint
  footPosX :: ramp
  footPosY :: ramp

text \<open>Sample values of the two constants: an update every 20 ms, five units a step.\<close>

definition sample_consts :: planner_consts where
  "sample_consts = \<lparr> TIME_TO_UPDATE = 20, GAIT_POSITION_INCREMENT = 5 \<rparr>"

subsection \<open>reset, init, setGait\<close>

definition reset :: "planner \<Rightarrow> planner" where
  "reset s =
     s\<lparr> dynamicFootPosition := \<lparr> pos_x = 0, pos_y = 0, pos_z = robotHeight s \<rparr>,
        wasAtOrigin := False,
        legMode := STANDING,
        footXYDrop := 0,
        footPosX := ramp_go 0 (footPosX s),
        footPosY := ramp_go 0 (footPosY s) \<rparr>"

definition init :: "int \<Rightarrow> planner \<Rightarrow> planner" where
  "init height s =
     reset (s\<lparr> legMode := STANDING,
               gaitType := DEFAULT_GAIT,
               robotHeight := height,
               gaits := (gaits s)(TROT := \<lparr> amplitude = 50, periodHalf = 140 \<rparr>) \<rparr>)"

definition setGait :: "GaitType \<Rightarrow> planner \<Rightarrow> planner" where
  "setGait g s = (if legMode s = STANDING then s\<lparr> gaitType := g \<rparr> else s)"

text \<open>A planner as the constructor leaves it, before \<open>init\<close>.\<close>

definition new_planner :: "LegID \<Rightarrow> planner" where
  "new_planner l =
     \<lparr> legID = l, legMode = STANDING, gaitType = TROT, robotHeight = 0,
       gaits = (\<lambda>g. \<lparr> amplitude = 0, periodHalf = 0 \<rparr>),
       footXYDrop = 0, previousUpdateTime = 0, wasAtOrigin = False,
       dynamicFootPosition = \<lparr> pos_x = 0, pos_y = 0, pos_z = 0 \<rparr>,
       stepEndpoint = \<lparr> ep_x = 0, ep_y = 0 \<rparr>,
       footPosX = [], footPosY = [] \<rparr>"

subsection \<open>getStepHeight\<close>

definition getStepHeight :: "planner \<Rightarrow> int \<Rightarrow> LegMode \<Rightarrow> int" where
  "getStepHeight s footXYDropL mode =
     (let periodHalf' = periodHalf (gaits s (gaitType s));
          amplitude' = amplitude (gaits s (gaitType s))
      in case mode of
           FIRST_STEP_ARC \<Rightarrow>
             i16_of (robotHeight s - lrint ((amplitude' / 2) *
               cos (pi * (of_int footXYDropL - (periodHalf' / 4)) / (periodHalf' / 2))))
         | FIRST_STEP_DRAW_BACK \<Rightarrow> i16_of (robotHeight s - 0)
         | ACTIVE_WALKING_ARC \<Rightarrow>
             i16_of (robotHeight s - lrint (amplitude' * cos (pi * of_int footXYDropL / periodHalf')))
         | ACTIVE_WALKING_DRAW_BACK \<Rightarrow> i16_of (robotHeight s - 0)
         | STANDING \<Rightarrow> i16_of (robotHeight s - 0))"

subsection \<open>update\<close>

text \<open>
  The \<^verbatim>\<open>switch\<close> of \<open>update\<close>: the foot drop moves by one increment and the phase
  changes when the drop equals plus or minus \<open>periodHalf/2\<close>, compared as floats.
\<close>

definition advanceDrop :: "planner_consts \<Rightarrow> real \<Rightarrow> planner \<Rightarrow> planner" where
  "advanceDrop c periodHalf' s =
     (case legMode s of
        FIRST_STEP_ARC \<Rightarrow>
          (let s1 = s\<lparr> footXYDrop := i16_of (footXYDrop s + GAIT_POSITION_INCREMENT c) \<rparr>
           in if of_int (footXYDrop s1) = periodHalf' / 2
              then s1\<lparr> legMode := ACTIVE_WALKING_DRAW_BACK \<rparr> else s1)
      | FIRST_STEP_DRAW_BACK \<Rightarrow>
          (let s1 = s\<lparr> footXYDrop := i16_of (footXYDrop s - GAIT_POSITION_INCREMENT c) \<rparr>
           in if of_int (footXYDrop s1) = - 1 * (periodHalf' / 2)
              then s1\<lparr> legMode := ACTIVE_WALKING_ARC \<rparr> else s1)
      | ACTIVE_WALKING_ARC \<Rightarrow>
          (let s1 = s\<lparr> footXYDrop := i16_of (footXYDrop s + GAIT_POSITION_INCREMENT c) \<rparr>
           in if of_int (footXYDrop s1) = periodHalf' / 2
              then s1\<lparr> legMode := ACTIVE_WALKING_DRAW_BACK \<rparr> else s1)
      | ACTIVE_WALKING_DRAW_BACK \<Rightarrow>
          (let s1 = s\<lparr> footXYDrop := i16_of (footXYDrop s - GAIT_POSITION_INCREMENT c) \<rparr>
           in if of_int (footXYDrop s1) = - 1 * (periodHalf' / 2)
              then s1\<lparr> legMode := ACTIVE_WALKING_ARC \<rparr> else s1)
      | STANDING \<Rightarrow> s)"

text \<open>
  \<^verbatim>\<open>bool update(ROBOT_MODE robotMode)\<close>; \<open>now\<close> is the value of \<open>millis()\<close>, an
  unsigned 32-bit counter. The x component is negated for legs 2 and 3 and then assigned
  the sampled value.
\<close>

definition update ::
    "planner_consts \<Rightarrow> (ramp \<Rightarrow> real) \<Rightarrow> int \<Rightarrow> ROBOT_MODE \<Rightarrow> planner \<Rightarrow> bool \<times> planner" where
  "update c val now robotMode s =
     (if legMode s = STANDING \<and> robotMode = WALKING then
        (let s1 = s\<lparr> previousUpdateTime := u32_of (now - 1) \<rparr>
         in (True,
             if legID s1 = LEG_1 \<or> legID s1 = LEG_3
             then s1\<lparr> legMode := FIRST_STEP_ARC, footXYDrop := 0 \<rparr>
             else if legID s1 = LEG_2 \<or> legID s1 = LEG_4
             then s1\<lparr> legMode := FIRST_STEP_DRAW_BACK, footXYDrop := 0 \<rparr>
             else s1))
      else
        (let periodHalf' = periodHalf (gaits s (gaitType s))
         in if u32_of (now - previousUpdateTime s) mod TIME_TO_UPDATE c = 0 then
              (let s1 = (if legID s = LEG_2 \<or> legID s = LEG_3
                         then s\<lparr> dynamicFootPosition := (dynamicFootPosition s)
                                 \<lparr> pos_x := pos_x (dynamicFootPosition s) * (- 1) \<rparr> \<rparr>
                         else s);
                   (vx, rx) = ramp_update val now (footPosX s1);
                   s2 = s1\<lparr> footPosX := rx,
                           dynamicFootPosition := (dynamicFootPosition s1)\<lparr> pos_x := vx \<rparr> \<rparr>;
                   (vy, ry) = ramp_update val now (footPosY s2);
                   s3 = s2\<lparr> footPosY := ry,
                           dynamicFootPosition := (dynamicFootPosition s2)\<lparr> pos_y := vy \<rparr> \<rparr>;
                   s4 = s3\<lparr> dynamicFootPosition := (dynamicFootPosition s3)
                           \<lparr> pos_z := getStepHeight s3 (footXYDrop s3) (legMode s3) \<rparr> \<rparr>;
                   s5 = advanceDrop c periodHalf' s4
               in (True, s5\<lparr> previousUpdateTime := u32_of (now - 1) \<rparr>))
            else (False, s)))"

subsection \<open>setStepEndpoint\<close>

text \<open>The quotient of two C integers: the fraction is discarded.\<close>

definition c_div :: "int \<Rightarrow> int \<Rightarrow> int" where
  "c_div a b = sgn a * sgn b * (\<bar>a\<bar> div \<bar>b\<bar>)"

text \<open>
  \<^verbatim>\<open>setStepEndpoint(int16_t controlCoordinateX, int16_t controlCoordinateY)\<close>. The
  gradient is the quotient of the two integers, converted to float afterwards.
\<close>

definition setStepEndpoint :: "planner_consts \<Rightarrow> int \<Rightarrow> int \<Rightarrow> planner \<Rightarrow> planner" where
  "setStepEndpoint c controlCoordinateX controlCoordinateY s =
     (let periodHalf' = periodHalf (gaits s (gaitType s))
      in if controlCoordinateX = 0 \<and> controlCoordinateY = 0 then
           s\<lparr> stepEndpoint := \<lparr> ep_x = 0, ep_y = 0 \<rparr>,
              footPosX := ramp_go 0 (footPosX s),
              footPosY := ramp_go 0 (footPosY s),
              legMode := STANDING \<rparr>
         else
           (let (stepEndpointX, stepEndpointY) =
                  (if controlCoordinateX = 0 then (0, periodHalf' / 2)
                   else
                     (let movementGradient = of_int (c_div controlCoordinateY controlCoordinateX)
                      in ((periodHalf' / 2) / sqrt (1 + movementGradient ^ 2),
                          ((periodHalf' / 2) * \<bar>movementGradient\<bar>) / sqrt (1 + movementGradient ^ 2))));
                stepEndpointX1 = (if controlCoordinateX < 0 then stepEndpointX * (- 1) else stepEndpointX);
                stepEndpointY1 = (if controlCoordinateY < 0 then stepEndpointY * (- 1) else stepEndpointY);
                (stepEndpointX2, stepEndpointY2) =
                  (if legMode s = ACTIVE_WALKING_DRAW_BACK \<or> legMode s = FIRST_STEP_DRAW_BACK
                   then (stepEndpointX1 * (- 1), stepEndpointY1 * (- 1))
                   else (stepEndpointX1, stepEndpointY1));
                e = \<lparr> ep_x = stepEndpointY2, ep_y = stepEndpointX2 \<rparr>;
                completionTime = float_to_int (of_int (TIME_TO_UPDATE c - 1) *
                  (periodHalf' / of_int (2 * GAIT_POSITION_INCREMENT c)))
            in s\<lparr> stepEndpoint := e,
                  footPosX := ramp_go_timed (ep_x e) completionTime LINEAR FORTHANDBACK (footPosX s),
                  footPosY := ramp_go_timed (ep_y e) completionTime LINEAR FORTHANDBACK (footPosY s) \<rparr>))"

subsection \<open>footAtOrigin\<close>

definition footAtOrigin :: "planner \<Rightarrow> bool \<times> planner" where
  "footAtOrigin s =
     (if footXYDrop s = 0 \<and> wasAtOrigin s = False then (True, s\<lparr> wasAtOrigin := True \<rparr>)
      else if footXYDrop s \<noteq> 0 then (False, s\<lparr> wasAtOrigin := False \<rparr>)
      else (False, s))"

subsection \<open>Runs of the planner\<close>

text \<open>
  A caller ticking the planner: \<open>run\<close> feeds \<open>update\<close> a list of clock readings and
  robot modes and counts the updates that returned true.
\<close>

fun run :: "planner_consts \<Rightarrow> (ramp \<Rightarrow> real) \<Rightarrow> (int \<times> ROBOT_MODE) list \<Rightarrow> nat \<times> planner \<Rightarrow> nat \<times> planner" where
  "run c val [] ks = ks"
| "run c val ((now, m) # ticks) (k, s) =
     (let (b, s') = update c val now m s in run c val ticks (if b then Suc k else k, s'))"

text \<open>
  A caller polling \<open>footAtOrigin\<close>: the foot drop has the given value at each call; the
  answers are collected.
\<close>

fun footAtOrigin_calls :: "planner \<Rightarrow> int list \<Rightarrow> bool list" where
  "footAtOrigin_calls s [] = []"
| "footAtOrigin_calls s (d # ds) =
     (let (b, s') = footAtOrigin (s\<lparr> footXYDrop := d \<rparr>) in b # footAtOrigin_calls s' ds)"

subsection \<open>Sample scenarios\<close>

text \<open>
  A leg initialised at robot height 120 whose first update, at clock reading 1000, was
  given \<open>WALKING\<close>; and the same leg after the control vector \<open>(0, 50)\<close>.
\<close>

definition first_step_leg :: "LegID \<Rightarrow> planner" where
  "first_step_leg l = snd (update sample_consts last_target 1000 WALKING (init 120 (new_planner l)))"

definition walking_leg :: "LegID \<Rightarrow> planner" where
  "walking_leg l = setStepEndpoint sample_consts 0 50 (first_step_leg l)"

subsection \<open>The gait cycle in closed form\<close>

text \<open>
  What the phase and the foot drop are to be after \<open>k\<close> scheduled updates of a leg
  that has begun its first step, for an increment \<open>I\<close> and \<open>n = 70 / I\<close> steps from
  the origin to an extreme: \<open>n\<close> updates of the first-step phase, then sweeps of
  \<open>2n\<close> updates between the extremes, the two active phases taking turns. This is
  the cycle the planner is compared with; it is not read off the source.
\<close>

definition cycle_phase :: "int \<Rightarrow> bool \<Rightarrow> nat \<Rightarrow> LegMode \<times> int" where
  "cycle_phase I arcFirst k =
     (let n = 70 div I; j = (int k - n) mod (4 * n)
      in if int k < n then
           (if arcFirst then (FIRST_STEP_ARC, I * int k) else (FIRST_STEP_DRAW_BACK, - (I * int k)))
         else if j < 2 * n then
           (if arcFirst then (ACTIVE_WALKING_DRAW_BACK, I * (n - j))
            else (ACTIVE_WALKING_ARC, I * (j - n)))
         else
           (if arcFirst then (ACTIVE_WALKING_ARC, I * (j - 3 * n))
            else (ACTIVE_WALKING_DRAW_BACK, I * (3 * n - j))))"

section \<open>Properties of the kinematics solver\<close>

subsection \<open>Reach-length stage\<close>

lemma lawOfCosines_sample_50: "lawOfCosines sample_config 50 = 90"
  by (simp add: lawOfCosines_def sample_config_def)

lemma lawOfCosines_sample_45: "lawOfCosines sample_config 45 < 90"
proof -
  have "arccos (19 / 96) < arccos 0"
    by (rule arccos_less_arccos) simp_all
  then show ?thesis
    by (simp add: lawOfCosines_def sample_config_def field_simps)
qed

text \<open>
  C1. The claim: the reach length is clamped to \<open>[SHOULDER_FOOT_MIN, SHOULDER_FOOT_MAX]\<close>
  and the Law of Cosines is applied to the clamped length. The code clamps into a local
  variable and applies the Law of Cosines to the unclamped parameter: with limbs 30 and
  40 and a maximum reach of 45, a demanded length of 50 yields joint-3 angle 90 and
  joint-2 contribution 45, where the clamped length 45 would give an angle below 90.
\<close>

theorem solveFtShldrLength_ignores_clamp:
  "solveFtShldrLength sample_config 50 0 0 = (45, 90) \<and>
   clampFtShldrLength sample_config 50 = 45 \<and>
   lawOfCosines sample_config (clampFtShldrLength sample_config 50) < 90"
proof -
  have a: "clampFtShldrLength sample_config 50 = 45"
    by (simp add: clampFtShldrLength_def sample_config_def)
  have b: "solveFtShldrLength sample_config 50 0 0 = (45, 90)"
    by (simp add: solveFtShldrLength_def Let_def lawOfCosines_sample_50)
  show ?thesis using a b lawOfCosines_sample_45 by simp
qed

subsection \<open>Joint limits\<close>

lemma applyConstraints_1:
  "M1_MIN c \<le> M1_MAX c \<Longrightarrow>
   \<exists>a. applyConstraints c 1 v = Some a \<and> M1_MIN c \<le> a \<and> a \<le> M1_MAX c"
  by (simp add: applyConstraints_def)

lemma applyConstraints_2:
  "M2_MIN c \<le> M2_MAX c \<Longrightarrow>
   \<exists>a. applyConstraints c 2 v = Some a \<and> M2_MIN c \<le> a \<and> a \<le> M2_MAX c"
  by (simp add: applyConstraints_def)

lemma applyConstraints_3:
  "M3_MIN c \<le> M3_MAX c \<Longrightarrow>
   \<exists>a. applyConstraints c 3 v = Some a \<and> M3_MIN c \<le> a \<and> a \<le> M3_MAX c"
  by (simp add: applyConstraints_def)

lemma u16_of_id: "0 \<le> v \<Longrightarrow> v < 65536 \<Longrightarrow> u16_of v = v"
  by (simp add: u16_of_def)

lemma solveFootPosition_clamped:
  assumes m1: "0 \<le> M1_MIN c" "M1_MIN c \<le> M1_MAX c" "M1_MAX c < 65536"
      and m2: "0 \<le> M2_MIN c" "M2_MIN c \<le> M2_MAX c" "M2_MAX c < 65536"
      and m3: "0 \<le> M3_MIN c" "M3_MIN c \<le> M3_MAX c" "M3_MAX c < 65536"
  shows "\<exists>a1 a2 a3. solveFootPosition c inputX inputY inputZ = Some (a1, a2, a3) \<and>
           M1_MIN c \<le> a1 \<and> a1 \<le> M1_MAX c \<and>
           M2_MIN c \<le> a2 \<and> a2 \<le> M2_MAX c \<and>
           M3_MIN c \<le> a3 \<and> a3 \<le> M3_MAX c"
proof -
  obtain d1 yz where s1: "solveYMove c inputY inputZ 0 = (d1, yz)"
    by (cases "solveYMove c inputY inputZ 0")
  obtain d2 len where s2: "solveXMove inputX (i16_of (float_to_int yz)) = (d2, len)"
    by (cases "solveXMove inputX (i16_of (float_to_int yz))")
  obtain d2' d3 where s3: "solveFtShldrLength c len d2 0 = (d2', d3)"
    by (cases "solveFtShldrLength c len d2 0")
  obtain a1 where a1: "applyConstraints c 1 (lrint d1 + M1_OFFSET c) = Some a1"
      "M1_MIN c \<le> a1" "a1 \<le> M1_MAX c"
    using applyConstraints_1 [OF m1(2)] by blast
  obtain a2 where a2: "applyConstraints c 2 (lrint d2' + M2_OFFSET c) = Some a2"
      "M2_MIN c \<le> a2" "a2 \<le> M2_MAX c"
    using applyConstraints_2 [OF m2(2)] by blast
  obtain a3 where a3: "applyConstraints c 3 ((M3_OFFSET c - lrint d3) + M3_OFFSET c) = Some a3"
      "M3_MIN c \<le> a3" "a3 \<le> M3_MAX c"
    using applyConstraints_3 [OF m3(2)] by blast
  have r: "solveFootPosition c inputX inputY inputZ = Some (u16_of a1, u16_of a2, u16_of a3)"
    by (simp only: solveFootPosition_def Let_def s1 s2 s3 prod.case a1(1) a2(1) a3(1) option.case)
  have "u16_of a1 = a1" "u16_of a2 = a2" "u16_of a3 = a3"
    using m1 m2 m3 a1 a2 a3 by (simp_all add: u16_of_id)
  with r a1 a2 a3 show ?thesis by simp
qed

text \<open>
  C4. For every input \<open>(x, y, z)\<close>, inside the reachable envelope or not,
  \<open>solveFootPosition\<close> returns, and each of the three angles it writes lies within the
  limits of its joint. The limits are taken to be ordered and to fit the \<^verbatim>\<open>uint16_t\<close>
  outputs.
\<close>

theorem solveFootPosition_within_limits:
  assumes "0 \<le> M1_MIN c" "M1_MIN c \<le> M1_MAX c" "M1_MAX c < 65536"
      and "0 \<le> M2_MIN c" "M2_MIN c \<le> M2_MAX c" "M2_MAX c < 65536"
      and "0 \<le> M3_MIN c" "M3_MIN c \<le> M3_MAX c" "M3_MAX c < 65536"
  shows "\<exists>a1 a2 a3. solveFootPosition c inputX inputY inputZ = Some (a1, a2, a3) \<and>
           M1_MIN c \<le> a1 \<and> a1 \<le> M1_MAX c \<and>
           M2_MIN c \<le> a2 \<and> a2 \<le> M2_MAX c \<and>
           M3_MIN c \<le> a3 \<and> a3 \<le> M3_MAX c"
  using assms by (rule solveFootPosition_clamped)

theorem solveFootPosition_within_limits_witness:
  "0 \<le> M1_MIN sample_config \<and> M1_MIN sample_config \<le> M1_MAX sample_config \<and>
   M1_MAX sample_config < 65536 \<and>
   0 \<le> M2_MIN sample_config \<and> M2_MIN sample_config \<le> M2_MAX sample_config \<and>
   M2_MAX sample_config < 65536 \<and>
   0 \<le> M3_MIN sample_config \<and> M3_MIN sample_config \<le> M3_MAX sample_config \<and>
   M3_MAX sample_config < 65536 \<and>
   (\<exists>a1 a2 a3. solveFootPosition sample_config 1000 (- 500) 0 = Some (a1, a2, a3) \<and>
      45 \<le> a1 \<and> a1 \<le> 135 \<and> 0 \<le> a2 \<and> a2 \<le> 180 \<and> 30 \<le> a3 \<and> a3 \<le> 150)"
  using solveFootPosition_within_limits [of sample_config 1000 "- 500" 0]
  by (simp add: sample_config_def)

subsection \<open>Zero divisors\<close>

text \<open>
  C6. The claim: an input \<open>z\<close> of zero is replaced by 1, so that no stage divides by
  zero. The guard is in \<open>solveXMove\<close> only, where it protects the residual z passed on
  by \<open>solveYMove\<close>; \<open>solveYMove\<close> itself divides \<open>inputY\<close> by the caller's
  \<open>inputZ\<close> unguarded. With \<open>inputZ = 0\<close> one of its divisors is zero, while no
  divisor of \<open>solveXMove\<close> ever is, nor one of \<open>solveFtShldrLength\<close> for limbs
  of non-zero length.
\<close>

theorem solveYMove_divides_by_zero:
  "0 \<in> set (solveYMove_divisors inputY 0) \<and>
   0 \<notin> set (solveXMove_divisors inputX inputZ) \<and>
   0 \<notin> set (solveFtShldrLength_divisors sample_config)"
  by (simp add: solveYMove_divisors_def solveXMove_divisors_def solveFtShldrLength_divisors_def
        sample_config_def Let_def)

subsection \<open>Pulse-width encoding\<close>

lemma degreesToMicros_in_range:
  assumes "DEGREES_TO_MICROS c = of_int K" "0 \<le> K"
      and "0 \<le> d" "d < 256" "0 \<le> k" "k < 256" "K * d + 500 + k < 65536"
  shows "degreesToMicros c d k = K * d + 500 + k"
proof -
  have d8: "u8_of d = d" "u8_of k = k" using assms by (simp_all add: u8_of_def)
  define V where "V = K * d + 500 + k"
  have e: "DEGREES_TO_MICROS c * of_int d + 500 + of_int k = real_of_int V"
    by (simp add: V_def assms(1))
  have V0: "0 \<le> V" "V < 65536" using assms by (simp_all add: V_def)
  have f: "float_to_int (real_of_int V) = V" using V0 by (simp add: float_to_int_def)
  have "degreesToMicros c d k = u16_of V"
    unfolding degreesToMicros_def Let_def d8 e f ..
  also have "\<dots> = V" using V0 by (simp add: u16_of_def)
  finally show ?thesis by (simp add: V_def)
qed

text \<open>
  C7. The claim: the command unit is \<open>K * d + 500 + c\<close> for every angle \<open>d\<close> and
  calibration offset \<open>c\<close>. The constructor takes 16-bit calibration offsets, the encoder
  8-bit ones: with \<open>K = 10\<close>, angle 90 and offset 300 the encoder returns 1444, the
  affine map 1700.
\<close>

theorem degreesToMicros_truncates_offset:
  "degreesToMicros sample_config 90 300 = 1444 \<and>
   DEGREES_TO_MICROS sample_config * 90 + 500 + 300 = 1700"
  by (simp add: degreesToMicros_def sample_config_def u8_of_def u16_of_def float_to_int_def Let_def)

subsection \<open>Commanding the solver's interpolators\<close>

lemma solveFootPosition_u16:
  assumes "solveFootPosition c x y z = Some (a1, a2, a3)"
  shows "0 \<le> a1 \<and> a1 < 65536 \<and> 0 \<le> a2 \<and> a2 < 65536 \<and> 0 \<le> a3 \<and> a3 < 65536"
  using assms
  by (auto simp add: solveFootPosition_def Let_def u16_of_def split: prod.splits option.splits)

lemma u16_of_abs_diff:
  "0 \<le> a \<Longrightarrow> a < 65536 \<Longrightarrow> 0 \<le> p \<Longrightarrow> p < 65536 \<Longrightarrow> u16_of \<bar>a - p\<bar> = \<bar>a - p\<bar>"
  by (simp add: u16_of_def)


lemma setFootEndpoint_result:
  assumes sol: "solveFootPosition c x y z = Some (a1, a2, a3)"
      and p1: "0 \<le> previousDegrees (motor1 k)" "previousDegrees (motor1 k) < 65536"
      and p2: "0 \<le> previousDegrees (motor2 k)" "previousDegrees (motor2 k) < 65536"
      and p3: "0 \<le> previousDegrees (motor3 k)" "previousDegrees (motor3 k) < 65536"
  shows "setFootEndpoint c x y z k =
     Some (if previousDegrees (motor1 k) \<noteq> a1 \<or> previousDegrees (motor2 k) \<noteq> a2 \<or>
              previousDegrees (motor3 k) \<noteq> a3
           then k\<lparr> motor1 := (motor1 k)\<lparr>angleDegrees := a1, previousDegrees := a1\<rparr>,
                   motor2 := (motor2 k)\<lparr>angleDegrees := a2, previousDegrees := a2\<rparr>,
                   motor3 := (motor3 k)\<lparr>angleDegrees := a3, previousDegrees := a3\<rparr>,
                   dynamicX := dynamicX k @ [GoTimed (of_int x)
                     (u16_of (lrint (MAX_SPEED_INVERSE c * of_int (max (max
                        \<bar>a1 - previousDegrees (motor1 k)\<bar> \<bar>a2 - previousDegrees (motor2 k)\<bar>)
                        \<bar>a3 - previousDegrees (motor3 k)\<bar>)))) LINEAR ONCEFORWARD],
                   dynamicY := dynamicY k @ [GoTimed (of_int y)
                     (u16_of (lrint (MAX_SPEED_INVERSE c * of_int (max (max
                        \<bar>a1 - previousDegrees (motor1 k)\<bar> \<bar>a2 - previousDegrees (motor2 k)\<bar>)
                        \<bar>a3 - previousDegrees (motor3 k)\<bar>)))) LINEAR ONCEFORWARD],
                   dynamicZ := dynamicZ k @ [GoTimed (of_int z)
                     (u16_of (lrint (MAX_SPEED_INVERSE c * of_int (max (max
                        \<bar>a1 - previousDegrees (motor1 k)\<bar> \<bar>a2 - previousDegrees (motor2 k)\<bar>)
                        \<bar>a3 - previousDegrees (motor3 k)\<bar>)))) LINEAR ONCEFORWARD] \<rparr>
           else k\<lparr> motor1 := (motor1 k)\<lparr>angleDegrees := a1\<rparr>,
                   motor2 := (motor2 k)\<lparr>angleDegrees := a2\<rparr>,
                   motor3 := (motor3 k)\<lparr>angleDegrees := a3\<rparr> \<rparr>)"
proof -
  note r = solveFootPosition_u16 [OF sol]
  have d1: "u16_of \<bar>a1 - previousDegrees (motor1 k)\<bar> = \<bar>a1 - previousDegrees (motor1 k)\<bar>"
    using r p1 by (simp add: u16_of_abs_diff)
  have d2: "u16_of \<bar>a2 - previousDegrees (motor2 k)\<bar> = \<bar>a2 - previousDegrees (motor2 k)\<bar>"
    using r p2 by (simp add: u16_of_abs_diff)
  have d3: "u16_of \<bar>a3 - previousDegrees (motor3 k)\<bar> = \<bar>a3 - previousDegrees (motor3 k)\<bar>"
    using r p3 by (simp add: u16_of_abs_diff)
  show ?thesis
    unfolding setFootEndpoint_def sol
    by (simp add: Let_def d1 d2 d3 ramp_go_timed_def)
qed

text \<open>
  C8. \<open>setFootEndpoint\<close> commands its three interpolators if and only if one of the
  newly solved angles differs from the previous target angle of its joint; the command
  is linear, once-forward, and its duration is \<open>MAX_SPEED_INVERSE\<close> times the largest
  of the three angle differences, rounded to an integer and stored in 16 bits. A second
  call with the same position finds the angles unchanged, issues no command and leaves
  the state as it is.
\<close>

theorem setFootEndpoint_commands_iff_changed:
  assumes sol: "solveFootPosition c x y z = Some (a1, a2, a3)"
      and p1: "0 \<le> previousDegrees (motor1 k)" "previousDegrees (motor1 k) < 65536"
      and p2: "0 \<le> previousDegrees (motor2 k)" "previousDegrees (motor2 k) < 65536"
      and p3: "0 \<le> previousDegrees (motor3 k)" "previousDegrees (motor3 k) < 65536"
  shows "\<exists>k'. setFootEndpoint c x y z k = Some k' \<and>
     (let changed = (previousDegrees (motor1 k) \<noteq> a1 \<or> previousDegrees (motor2 k) \<noteq> a2 \<or>
                     previousDegrees (motor3 k) \<noteq> a3);
          demandTime = u16_of (lrint (MAX_SPEED_INVERSE c * of_int (max (max
                        \<bar>a1 - previousDegrees (motor1 k)\<bar> \<bar>a2 - previousDegrees (motor2 k)\<bar>)
                        \<bar>a3 - previousDegrees (motor3 k)\<bar>)))
      in dynamicX k' = (if changed then dynamicX k @ [GoTimed (of_int x) demandTime LINEAR ONCEFORWARD]
                        else dynamicX k) \<and>
         dynamicY k' = (if changed then dynamicY k @ [GoTimed (of_int y) demandTime LINEAR ONCEFORWARD]
                        else dynamicY k) \<and>
         dynamicZ k' = (if changed then dynamicZ k @ [GoTimed (of_int z) demandTime LINEAR ONCEFORWARD]
                        else dynamicZ k)) \<and>
     setFootEndpoint c x y z k' = Some k'"
proof -
  note r = solveFootPosition_u16 [OF sol]
  note res = setFootEndpoint_result [OF sol p1 p2 p3]
  define demandTime where "demandTime = u16_of (lrint (MAX_SPEED_INVERSE c * of_int (max (max
                        \<bar>a1 - previousDegrees (motor1 k)\<bar> \<bar>a2 - previousDegrees (motor2 k)\<bar>)
                        \<bar>a3 - previousDegrees (motor3 k)\<bar>)))"
  show ?thesis
  proof (cases "previousDegrees (motor1 k) \<noteq> a1 \<or> previousDegrees (motor2 k) \<noteq> a2 \<or>
                previousDegrees (motor3 k) \<noteq> a3")
    case True
    define k' where "k' = k\<lparr> motor1 := (motor1 k)\<lparr>angleDegrees := a1, previousDegrees := a1\<rparr>,
                   motor2 := (motor2 k)\<lparr>angleDegrees := a2, previousDegrees := a2\<rparr>,
                   motor3 := (motor3 k)\<lparr>angleDegrees := a3, previousDegrees := a3\<rparr>,
                   dynamicX := dynamicX k @ [GoTimed (of_int x) demandTime LINEAR ONCEFORWARD],
                   dynamicY := dynamicY k @ [GoTimed (of_int y) demandTime LINEAR ONCEFORWARD],
                   dynamicZ := dynamicZ k @ [GoTimed (of_int z) demandTime LINEAR ONCEFORWARD] \<rparr>"
    have first: "setFootEndpoint c x y z k = Some k'"
      unfolding res k'_def demandTime_def if_P [OF True] ..
    have "setFootEndpoint c x y z k' =
            Some (k'\<lparr> motor1 := (motor1 k')\<lparr>angleDegrees := a1\<rparr>,
                      motor2 := (motor2 k')\<lparr>angleDegrees := a2\<rparr>,
                      motor3 := (motor3 k')\<lparr>angleDegrees := a3\<rparr> \<rparr>)"
      using r by (subst setFootEndpoint_result [OF sol]) (simp_all add: k'_def)
    also have "\<dots> = Some k'" by (simp add: k'_def)
    finally have again: "setFootEndpoint c x y z k' = Some k'" .
    have "dynamicX k' = dynamicX k @ [GoTimed (of_int x) demandTime LINEAR ONCEFORWARD]"
         "dynamicY k' = dynamicY k @ [GoTimed (of_int y) demandTime LINEAR ONCEFORWARD]"
         "dynamicZ k' = dynamicZ k @ [GoTimed (of_int z) demandTime LINEAR ONCEFORWARD]"
      by (simp_all add: k'_def)
    then show ?thesis
      unfolding Let_def if_P [OF True] demandTime_def [symmetric]
      using first again by blast
  next
    case False
    define k' where "k' = k\<lparr> motor1 := (motor1 k)\<lparr>angleDegrees := a1\<rparr>,
                   motor2 := (motor2 k)\<lparr>angleDegrees := a2\<rparr>,
                   motor3 := (motor3 k)\<lparr>angleDegrees := a3\<rparr> \<rparr>"
    have first: "setFootEndpoint c x y z k = Some k'"
      unfolding res k'_def if_not_P [OF False] ..
    have "setFootEndpoint c x y z k' =
            Some (k'\<lparr> motor1 := (motor1 k')\<lparr>angleDegrees := a1\<rparr>,
                      motor2 := (motor2 k')\<lparr>angleDegrees := a2\<rparr>,
                      motor3 := (motor3 k')\<lparr>angleDegrees := a3\<rparr> \<rparr>)"
      using r False p1 p2 p3 by (subst setFootEndpoint_result [OF sol]) (simp_all add: k'_def)
    also have "\<dots> = Some k'" by (simp add: k'_def)
    finally have again: "setFootEndpoint c x y z k' = Some k'" .
    have "dynamicX k' = dynamicX k" "dynamicY k' = dynamicY k" "dynamicZ k' = dynamicZ k"
      by (simp_all add: k'_def)
    then show ?thesis
      unfolding Let_def if_not_P [OF False]
      using first again by blast
  qed
qed

theorem setFootEndpoint_commands_iff_changed_witness:
  "\<exists>a1 a2 a3 k'.
     solveFootPosition sample_config 0 0 100 = Some (a1, a2, a3) \<and>
     previousDegrees (motor1 sample_kinematics) = 360 \<and>
     setFootEndpoint sample_config 0 0 100 sample_kinematics = Some k' \<and>
     dynamicX k' = [Go 0, GoTimed 0 (u16_of (lrint (MAX_SPEED_INVERSE sample_config *
        of_int (max (max \<bar>a1 - 360\<bar> \<bar>a2 - 360\<bar>) \<bar>a3 - 360\<bar>)))) LINEAR ONCEFORWARD] \<and>
     dynamicZ k' = [Go 100, GoTimed 100 (u16_of (lrint (MAX_SPEED_INVERSE sample_config *
        of_int (max (max \<bar>a1 - 360\<bar> \<bar>a2 - 360\<bar>) \<bar>a3 - 360\<bar>)))) LINEAR ONCEFORWARD] \<and>
     setFootEndpoint sample_config 0 0 100 k' = Some k'"
proof -
  obtain a1 a2 a3 where sol: "solveFootPosition sample_config 0 0 100 = Some (a1, a2, a3)"
      and a1: "a1 \<le> M1_MAX sample_config"
    using solveFootPosition_clamped [of sample_config 0 0 100]
    by (auto simp add: sample_config_def)
  have ne: "a1 \<noteq> 360" using a1 by (simp add: sample_config_def)
  obtain k' where k': "setFootEndpoint sample_config 0 0 100 sample_kinematics = Some k'"
      "dynamicX k' = [Go 0, GoTimed 0 (u16_of (lrint (MAX_SPEED_INVERSE sample_config *
        of_int (max (max \<bar>a1 - 360\<bar> \<bar>a2 - 360\<bar>) \<bar>a3 - 360\<bar>)))) LINEAR ONCEFORWARD]"
      "dynamicZ k' = [Go 100, GoTimed 100 (u16_of (lrint (MAX_SPEED_INVERSE sample_config *
        of_int (max (max \<bar>a1 - 360\<bar> \<bar>a2 - 360\<bar>) \<bar>a3 - 360\<bar>)))) LINEAR ONCEFORWARD]"
      "setFootEndpoint sample_config 0 0 100 k' = Some k'"
    using setFootEndpoint_commands_iff_changed [OF sol, of sample_kinematics] ne
    by (auto simp add: sample_kinematics_def Let_def)
  have "previousDegrees (motor1 sample_kinematics) = 360"
    by (simp add: sample_kinematics_def Let_def)
  with sol k' show ?thesis by blast
qed

section \<open>Properties of the step planner\<close>

subsection \<open>The sample scenarios\<close>

lemma GaitType_eq_TROT: "(g::GaitType) = TROT"
  by (cases g)

lemma first_step_leg_eq:
  "first_step_leg l =
     \<lparr> legID = l,
       legMode = (if l = LEG_1 \<or> l = LEG_3 then FIRST_STEP_ARC else FIRST_STEP_DRAW_BACK),
       gaitType = TROT, robotHeight = 120,
       gaits = (\<lambda>g. \<lparr> amplitude = 50, periodHalf = 140 \<rparr>),
       footXYDrop = 0, previousUpdateTime = 999, wasAtOrigin = False,
       dynamicFootPosition = \<lparr> pos_x = 0, pos_y = 0, pos_z = 120 \<rparr>,
       stepEndpoint = \<lparr> ep_x = 0, ep_y = 0 \<rparr>,
       footPosX = [Go 0], footPosY = [Go 0] \<rparr>"
  by (cases l)
     (simp_all add: first_step_leg_def update_def init_def reset_def new_planner_def
        DEFAULT_GAIT_def ramp_go_def u32_of_def Let_def fun_eq_iff GaitType_eq_TROT)

subsection \<open>What setStepEndpoint changes\<close>

lemma setStepEndpoint_nonzero_shape:
  assumes "cx \<noteq> 0 \<or> cy \<noteq> 0"
  shows "setStepEndpoint c cx cy s =
           s\<lparr> stepEndpoint := stepEndpoint (setStepEndpoint c cx cy s),
              footPosX := footPosX s @ [GoTimed (ep_x (stepEndpoint (setStepEndpoint c cx cy s)))
                (float_to_int (of_int (TIME_TO_UPDATE c - 1) *
                  (periodHalf (gaits s (gaitType s)) / of_int (2 * GAIT_POSITION_INCREMENT c))))
                LINEAR FORTHANDBACK],
              footPosY := footPosY s @ [GoTimed (ep_y (stepEndpoint (setStepEndpoint c cx cy s)))
                (float_to_int (of_int (TIME_TO_UPDATE c - 1) *
                  (periodHalf (gaits s (gaitType s)) / of_int (2 * GAIT_POSITION_INCREMENT c))))
                LINEAR FORTHANDBACK] \<rparr>"
proof -
  have nz: "\<not> (cx = 0 \<and> cy = 0)" using assms by simp
  show ?thesis
    unfolding setStepEndpoint_def Let_def ramp_go_timed_def case_prod_beta if_not_P [OF nz]
    by simp
qed

lemma setStepEndpoint_nonzero_ex:
  assumes "cx \<noteq> 0 \<or> cy \<noteq> 0"
  shows "\<exists>e t. setStepEndpoint c cx cy s =
           s\<lparr> stepEndpoint := e,
              footPosX := footPosX s @ [GoTimed (ep_x e) t LINEAR FORTHANDBACK],
              footPosY := footPosY s @ [GoTimed (ep_y e) t LINEAR FORTHANDBACK] \<rparr>"
  by (rule exI, rule exI, rule setStepEndpoint_nonzero_shape [OF assms])

text \<open>
  C10. For a non-zero control vector, \<open>setStepEndpoint\<close> returns the planner it was
  given with a new step endpoint and one timed forth-and-back command appended to each
  axis interpolator: the phase, the foot drop, the gait type, the robot height, the
  origin latch and the cached foot position keep their values. The zero vector is the
  path that sets the phase, to \<open>STANDING\<close>.
\<close>

theorem setStepEndpoint_frame:
  assumes "cx \<noteq> 0 \<or> cy \<noteq> 0"
  shows "legMode (setStepEndpoint c cx cy s) = legMode s \<and>
         footXYDrop (setStepEndpoint c cx cy s) = footXYDrop s \<and>
         gaitType (setStepEndpoint c cx cy s) = gaitType s \<and>
         robotHeight (setStepEndpoint c cx cy s) = robotHeight s \<and>
         wasAtOrigin (setStepEndpoint c cx cy s) = wasAtOrigin s \<and>
         dynamicFootPosition (setStepEndpoint c cx cy s) = dynamicFootPosition s \<and>
         (\<exists>e t. setStepEndpoint c cx cy s =
           s\<lparr> stepEndpoint := e,
              footPosX := footPosX s @ [GoTimed (ep_x e) t LINEAR FORTHANDBACK],
              footPosY := footPosY s @ [GoTimed (ep_y e) t LINEAR FORTHANDBACK] \<rparr>) \<and>
         legMode (setStepEndpoint c 0 0 s) = STANDING"
proof -
  obtain e t where r: "setStepEndpoint c cx cy s =
           s\<lparr> stepEndpoint := e,
              footPosX := footPosX s @ [GoTimed (ep_x e) t LINEAR FORTHANDBACK],
              footPosY := footPosY s @ [GoTimed (ep_y e) t LINEAR FORTHANDBACK] \<rparr>"
    using setStepEndpoint_nonzero_ex [OF assms] by blast
  have z: "legMode (setStepEndpoint c 0 0 s) = STANDING"
    by (simp add: setStepEndpoint_def)
  have f: "legMode (setStepEndpoint c cx cy s) = legMode s"
       "footXYDrop (setStepEndpoint c cx cy s) = footXYDrop s"
       "gaitType (setStepEndpoint c cx cy s) = gaitType s"
       "robotHeight (setStepEndpoint c cx cy s) = robotHeight s"
       "wasAtOrigin (setStepEndpoint c cx cy s) = wasAtOrigin s"
       "dynamicFootPosition (setStepEndpoint c cx cy s) = dynamicFootPosition s"
    by (simp_all add: r)
  show ?thesis
    using f z setStepEndpoint_nonzero_ex [OF assms, of c s] by simp
qed

theorem setStepEndpoint_frame_witness:
  "(50::int) \<noteq> 0 \<and>
   legMode (setStepEndpoint sample_consts 50 0 (first_step_leg LEG_1)) = FIRST_STEP_ARC \<and>
   footXYDrop (setStepEndpoint sample_consts 50 0 (first_step_leg LEG_1)) = 0 \<and>
   wasAtOrigin (setStepEndpoint sample_consts 50 0 (first_step_leg LEG_1)) = False \<and>
   robotHeight (setStepEndpoint sample_consts 50 0 (first_step_leg LEG_1)) = 120"
  using setStepEndpoint_frame [of 50 0 sample_consts "first_step_leg LEG_1"]
  by (simp add: first_step_leg_eq)

subsection \<open>The origin latch\<close>

lemma footAtOrigin_at:
  "footAtOrigin (s\<lparr> footXYDrop := d \<rparr>) = (b, s') \<Longrightarrow>
     b = (d = 0 \<and> \<not> wasAtOrigin s) \<and> wasAtOrigin s' = (d = 0)"
  by (auto simp add: footAtOrigin_def split: if_splits)

text \<open>
  Setting a step endpoint leaves the latch alone, as an update does; \<open>reset\<close> clears it,
  so the call after a reset answers true.
\<close>

lemma setStepEndpoint_keeps_latch: "wasAtOrigin (setStepEndpoint c cx cy s) = wasAtOrigin s"
proof (cases "cx = 0 \<and> cy = 0")
  case True
  then show ?thesis by (simp add: setStepEndpoint_def)
next
  case False
  then have "cx \<noteq> 0 \<or> cy \<noteq> 0" by simp
  then show ?thesis by (subst setStepEndpoint_nonzero_shape) simp_all
qed

lemma footAtOrigin_after_reset: "fst (footAtOrigin (reset s))"
  by (simp add: footAtOrigin_def reset_def)

text \<open>
  C9. Over any sequence of calls of \<open>footAtOrigin\<close>, the foot drop being read at each
  call: a call answers true exactly when the drop is 0 and the drop read by the call
  before was not 0 (for the first call: the latch was clear). So the first call at 0
  after a non-zero reading answers true, every further call while the drop stays 0
  answers false, and only a reading other than 0 arms the latch again.
\<close>

theorem footAtOrigin_latch:
  "i < length ds \<Longrightarrow>
   footAtOrigin_calls s ds ! i =
     (ds ! i = 0 \<and> (if i = 0 then \<not> wasAtOrigin s else ds ! (i - 1) \<noteq> 0))"
proof (induction ds arbitrary: s i)
  case Nil
  then show ?case by simp
next
  case (Cons d ds)
  obtain b s' where f: "footAtOrigin (s\<lparr> footXYDrop := d \<rparr>) = (b, s')"
    by (cases "footAtOrigin (s\<lparr> footXYDrop := d \<rparr>)")
  note fa = footAtOrigin_at [OF f]
  show ?case
  proof (cases i)
    case 0
    then show ?thesis using f fa by simp
  next
    case (Suc j)
    then have j: "j < length ds" using Cons.prems by simp
    have "footAtOrigin_calls s (d # ds) ! i = footAtOrigin_calls s' ds ! j"
      using f Suc by simp
    also have "\<dots> = (ds ! j = 0 \<and> (if j = 0 then \<not> wasAtOrigin s' else ds ! (j - 1) \<noteq> 0))"
      by (rule Cons.IH [OF j])
    finally show ?thesis
      using Suc fa by (cases j) auto
  qed
qed

theorem footAtOrigin_latch_witness:
  "(3::nat) < length [0, 0, 5, 0::int] \<and>
   footAtOrigin_calls (new_planner LEG_1) [0, 0, 5, 0] ! 3 = True \<and>
   footAtOrigin_calls (new_planner LEG_1) [0, 0, 5, 0] ! 1 = False"
  using footAtOrigin_latch [of 3 "[0, 0, 5, 0]" "new_planner LEG_1"]
    footAtOrigin_latch [of 1 "[0, 0, 5, 0]" "new_planner LEG_1"]
  by simp

subsection \<open>The step endpoint\<close>

lemma c_div_exact: "cx \<noteq> 0 \<Longrightarrow> c_div (k * cx) cx = k"
proof -
  assume nz: "cx \<noteq> 0"
  have "sgn cx * sgn cx = 1" using nz by (simp add: sgn_if)
  moreover have "sgn k * \<bar>k\<bar> = k" by (simp add: sgn_if)
  ultimately show ?thesis
    using nz by (simp add: c_div_def sgn_mult abs_mult mult.assoc mult.left_commute)
qed

lemma circle_point:
  fixes P g :: real
  shows "(P / sqrt (1 + g\<^sup>2))\<^sup>2 + (P * \<bar>g\<bar> / sqrt (1 + g\<^sup>2))\<^sup>2 = P\<^sup>2"
proof -
  have pos: "0 < 1 + g\<^sup>2" by (simp add: add_pos_nonneg)
  have sq: "(sqrt (1 + g\<^sup>2))\<^sup>2 = 1 + g\<^sup>2" using pos by simp
  have "(P / sqrt (1 + g\<^sup>2))\<^sup>2 + (P * \<bar>g\<bar> / sqrt (1 + g\<^sup>2))\<^sup>2
        = P\<^sup>2 / (1 + g\<^sup>2) + P\<^sup>2 * g\<^sup>2 / (1 + g\<^sup>2)"
    by (simp add: power_divide power_mult_distrib sq)
  also have "\<dots> = P\<^sup>2 * (1 + g\<^sup>2) / (1 + g\<^sup>2)"
    by (simp add: add_divide_distrib distrib_left)
  also have "\<dots> = P\<^sup>2" using pos by simp
  finally show ?thesis .
qed

text \<open>The endpoint stored for a non-zero control vector.\<close>

lemma stepEndpoint_nonzero:
  assumes "cx \<noteq> 0 \<or> cy \<noteq> 0"
  shows "stepEndpoint (setStepEndpoint c cx cy s) =
     (let P = periodHalf (gaits s (gaitType s)) / 2;
          g = of_int (c_div cy cx);
          X = (if cx = 0 then 0 else P / sqrt (1 + g\<^sup>2));
          Y = (if cx = 0 then P else P * \<bar>g\<bar> / sqrt (1 + g\<^sup>2));
          d = (if legMode s = ACTIVE_WALKING_DRAW_BACK \<or> legMode s = FIRST_STEP_DRAW_BACK
               then - 1 else 1)
      in \<lparr> ep_x = d * (if cy < 0 then - Y else Y), ep_y = d * (if cx < 0 then - X else X) \<rparr>)"
proof -
  have nz: "\<not> (cx = 0 \<and> cy = 0)" using assms by simp
  show ?thesis
    unfolding setStepEndpoint_def Let_def ramp_go_timed_def case_prod_beta if_not_P [OF nz]
    by simp
qed

lemma stepEndpoint_magnitude:
  assumes "cx \<noteq> 0 \<or> cy \<noteq> 0"
  shows "(ep_x (stepEndpoint (setStepEndpoint c cx cy s)))\<^sup>2 +
         (ep_y (stepEndpoint (setStepEndpoint c cx cy s)))\<^sup>2 =
         (periodHalf (gaits s (gaitType s)) / 2)\<^sup>2"
proof (cases "cx = 0")
  case True
  show ?thesis
    unfolding stepEndpoint_nonzero [OF assms] using True
    by (simp add: Let_def power_mult_distrib)
next
  case False
  have "(periodHalf (gaits s (gaitType s)) / 2 * \<bar>of_int (c_div cy cx)\<bar> / sqrt (1 + (of_int (c_div cy cx))\<^sup>2))\<^sup>2
      + (periodHalf (gaits s (gaitType s)) / 2 / sqrt (1 + (of_int (c_div cy cx))\<^sup>2))\<^sup>2
      = (periodHalf (gaits s (gaitType s)) / 2)\<^sup>2"
    using circle_point [of "periodHalf (gaits s (gaitType s)) / 2" "of_int (c_div cy cx)"]
    by (simp add: add.commute)
  then show ?thesis
    unfolding stepEndpoint_nonzero [OF assms] using False
    by (simp add: Let_def power_mult_distrib)
qed


lemma stepEndpoint_direction:
  assumes nz: "cx \<noteq> 0 \<or> cy \<noteq> 0" and ex: "cx = 0 \<or> cx dvd cy"
  shows "ep_y (stepEndpoint (setStepEndpoint c cx cy s)) =
           (if legMode s = ACTIVE_WALKING_DRAW_BACK \<or> legMode s = FIRST_STEP_DRAW_BACK
            then - 1 else 1) *
           (periodHalf (gaits s (gaitType s)) / 2) * of_int cx / sqrt ((of_int cx)\<^sup>2 + (of_int cy)\<^sup>2) \<and>
         ep_x (stepEndpoint (setStepEndpoint c cx cy s)) =
           (if legMode s = ACTIVE_WALKING_DRAW_BACK \<or> legMode s = FIRST_STEP_DRAW_BACK
            then - 1 else 1) *
           (periodHalf (gaits s (gaitType s)) / 2) * of_int cy / sqrt ((of_int cx)\<^sup>2 + (of_int cy)\<^sup>2)"
proof (cases "cx = 0")
  case True
  then have cy: "cy \<noteq> 0" using nz by simp
  then have "real_of_int cy / \<bar>real_of_int cy\<bar> = (if cy < 0 then - 1 else 1)"
    by (simp add: abs_if)
  then show ?thesis
    unfolding stepEndpoint_nonzero [OF nz] using True cy
    by (simp add: Let_def)
next
  case False
  then obtain k where k: "cy = k * cx" using ex by (auto simp: dvd_def mult.commute)
  have g: "c_div cy cx = k" unfolding k using False by (rule c_div_exact)
  define r where "r = sqrt (1 + (real_of_int k)\<^sup>2)"
  have rpos: "0 < r" unfolding r_def by (simp add: add_pos_nonneg)
  have "sqrt ((real_of_int cx)\<^sup>2 + (real_of_int cy)\<^sup>2) = sqrt ((real_of_int cx)\<^sup>2 * (1 + (real_of_int k)\<^sup>2))"
    unfolding k by (simp add: power_mult_distrib distrib_left mult.commute)
  also have "\<dots> = \<bar>real_of_int cx\<bar> * r"
    unfolding r_def by (simp add: real_sqrt_mult)
  finally have den: "sqrt ((real_of_int cx)\<^sup>2 + (real_of_int cy)\<^sup>2) = \<bar>real_of_int cx\<bar> * r" .
  have sx: "real_of_int cx / (\<bar>real_of_int cx\<bar> * r) = (if cx < 0 then - 1 else 1) / r"
    using False by (simp add: abs_if)
  have sy: "real_of_int cy / (\<bar>real_of_int cx\<bar> * r) = (if cy < 0 then - 1 else 1) * \<bar>real_of_int k\<bar> / r"
  proof -
    have "real_of_int cy / (\<bar>real_of_int cx\<bar> * r) = real_of_int k * (real_of_int cx / \<bar>real_of_int cx\<bar>) / r"
      unfolding k by simp
    also have "real_of_int k * (real_of_int cx / \<bar>real_of_int cx\<bar>) = (if cy < 0 then - 1 else 1) * \<bar>real_of_int k\<bar>"
      using False unfolding k
      by (auto simp add: abs_if mult_less_0_iff zero_less_mult_iff not_less mult_le_0_iff)
    finally show ?thesis .
  qed
  define d :: real where
    "d = (if legMode s = ACTIVE_WALKING_DRAW_BACK \<or> legMode s = FIRST_STEP_DRAW_BACK then - 1 else 1)"
  define P where "P = periodHalf (gaits s (gaitType s)) / 2"
  have ey: "ep_y (stepEndpoint (setStepEndpoint c cx cy s)) = d * (if cx < 0 then - (P / r) else P / r)"
    unfolding stepEndpoint_nonzero [OF nz] Let_def g using False
    by (simp add: d_def P_def r_def)
  have ex: "ep_x (stepEndpoint (setStepEndpoint c cx cy s)) =
              d * (if cy < 0 then - (P * \<bar>real_of_int k\<bar> / r) else P * \<bar>real_of_int k\<bar> / r)"
    unfolding stepEndpoint_nonzero [OF nz] Let_def g using False
    by (simp add: d_def P_def r_def)
  have "d * P * real_of_int cx / sqrt ((real_of_int cx)\<^sup>2 + (real_of_int cy)\<^sup>2)
          = d * P * (real_of_int cx / (\<bar>real_of_int cx\<bar> * r))"
    by (simp add: den)
  also have "\<dots> = d * P * ((if cx < 0 then - 1 else 1) / r)"
    by (simp only: sx)
  also have "\<dots> = d * (if cx < 0 then - (P / r) else P / r)"
    by simp
  finally have gy: "ep_y (stepEndpoint (setStepEndpoint c cx cy s)) =
      d * P * real_of_int cx / sqrt ((real_of_int cx)\<^sup>2 + (real_of_int cy)\<^sup>2)"
    using ey by simp
  have "d * P * real_of_int cy / sqrt ((real_of_int cx)\<^sup>2 + (real_of_int cy)\<^sup>2)
          = d * P * (real_of_int cy / (\<bar>real_of_int cx\<bar> * r))"
    by (simp add: den)
  also have "\<dots> = d * P * ((if cy < 0 then - 1 else 1) * \<bar>real_of_int k\<bar> / r)"
    by (simp only: sy)
  also have "\<dots> = d * (if cy < 0 then - (P * \<bar>real_of_int k\<bar> / r) else P * \<bar>real_of_int k\<bar> / r)"
    by simp
  finally have gx: "ep_x (stepEndpoint (setStepEndpoint c cx cy s)) =
      d * P * real_of_int cy / sqrt ((real_of_int cx)\<^sup>2 + (real_of_int cy)\<^sup>2)"
    using ex by simp
  show ?thesis
    using gx gy unfolding d_def P_def by simp
qed


lemma completionTime_positive:
  assumes "1 < T" "0 < I" "2 * real_of_int I \<le> real_of_int (T - 1) * P"
  shows "0 < float_to_int (of_int (T - 1) * (P / of_int (2 * I)))"
proof -
  have "1 \<le> real_of_int (T - 1) * P / (2 * real_of_int I)"
    using assms by (simp add: field_simps)
  then have v: "1 \<le> real_of_int (T - 1) * (P / of_int (2 * I))" by simp
  then have "1 \<le> \<lfloor>real_of_int (T - 1) * (P / of_int (2 * I))\<rfloor>" by (simp add: le_floor_iff)
  then show ?thesis using v by (simp add: float_to_int_def)
qed

lemma stepEndpoint_50_0:
  assumes "legMode s = FIRST_STEP_ARC"
  shows "stepEndpoint (setStepEndpoint c 50 0 s) =
           \<lparr> ep_x = 0, ep_y = periodHalf (gaits s (gaitType s)) / 2 \<rparr>"
proof -
  have nz: "(50::int) \<noteq> 0 \<or> (0::int) \<noteq> 0" by simp
  show ?thesis
    unfolding stepEndpoint_nonzero [OF nz] using assms
    by (simp add: Let_def c_div_def)
qed

text \<open>
  C2, as stated: \<open>setStepEndpoint(50, 0)\<close> on a leg in \<open>FIRST_STEP_ARC\<close> at robot
  height 120 would yield a non-zero \<open>stepEndpoint.x\<close>. It yields 0: after the swap,
  x is the component along \<open>controlY\<close>.
\<close>

theorem setStepEndpoint_50_0_x_is_zero:
  "legMode (first_step_leg LEG_1) = FIRST_STEP_ARC \<and>
   robotHeight (first_step_leg LEG_1) = 120 \<and>
   ep_x (stepEndpoint (setStepEndpoint sample_consts 50 0 (first_step_leg LEG_1))) = 0"
  by (simp add: first_step_leg_eq setStepEndpoint_def c_div_def Let_def)

text \<open>
  C2, as amended. For every non-zero control vector the stored endpoint lies on the
  circle of radius \<open>periodHalf/2\<close>. Where the gradient is exact (\<open>controlX\<close> is 0 or
  divides \<open>controlY\<close>), the endpoint before the swap of the axes is the control vector
  scaled to that radius, negated in a draw-back phase. Both axis interpolators receive
  one timed forth-and-back command to the new endpoint, with completion time
  \<open>(TIME_TO_UPDATE - 1) * periodHalf / (2 * GAIT_POSITION_INCREMENT)\<close> truncated, which
  is positive when that product is at least 1. For the control vector \<open>(50, 0)\<close> in
  \<open>FIRST_STEP_ARC\<close> the endpoint is \<open>x = 0\<close>, \<open>y = periodHalf/2\<close>.
\<close>

theorem setStepEndpoint_projects_onto_circle:
  assumes nz: "cx \<noteq> 0 \<or> cy \<noteq> 0"
  shows "(ep_x (stepEndpoint (setStepEndpoint c cx cy s)))\<^sup>2 +
         (ep_y (stepEndpoint (setStepEndpoint c cx cy s)))\<^sup>2 =
         (periodHalf (gaits s (gaitType s)) / 2)\<^sup>2 \<and>
         (cx = 0 \<or> cx dvd cy \<longrightarrow>
            ep_y (stepEndpoint (setStepEndpoint c cx cy s)) =
              (if legMode s = ACTIVE_WALKING_DRAW_BACK \<or> legMode s = FIRST_STEP_DRAW_BACK
               then - 1 else 1) *
              (periodHalf (gaits s (gaitType s)) / 2) * of_int cx /
                sqrt ((of_int cx)\<^sup>2 + (of_int cy)\<^sup>2) \<and>
            ep_x (stepEndpoint (setStepEndpoint c cx cy s)) =
              (if legMode s = ACTIVE_WALKING_DRAW_BACK \<or> legMode s = FIRST_STEP_DRAW_BACK
               then - 1 else 1) *
              (periodHalf (gaits s (gaitType s)) / 2) * of_int cy /
                sqrt ((of_int cx)\<^sup>2 + (of_int cy)\<^sup>2)) \<and>
         footPosX (setStepEndpoint c cx cy s) =
           footPosX s @ [GoTimed (ep_x (stepEndpoint (setStepEndpoint c cx cy s)))
             (float_to_int (of_int (TIME_TO_UPDATE c - 1) *
               (periodHalf (gaits s (gaitType s)) / of_int (2 * GAIT_POSITION_INCREMENT c))))
             LINEAR FORTHANDBACK] \<and>
         footPosY (setStepEndpoint c cx cy s) =
           footPosY s @ [GoTimed (ep_y (stepEndpoint (setStepEndpoint c cx cy s)))
             (float_to_int (of_int (TIME_TO_UPDATE c - 1) *
               (periodHalf (gaits s (gaitType s)) / of_int (2 * GAIT_POSITION_INCREMENT c))))
             LINEAR FORTHANDBACK] \<and>
         (1 < TIME_TO_UPDATE c \<and> 0 < GAIT_POSITION_INCREMENT c \<and>
          2 * of_int (GAIT_POSITION_INCREMENT c) \<le>
            of_int (TIME_TO_UPDATE c - 1) * periodHalf (gaits s (gaitType s)) \<longrightarrow>
            0 < float_to_int (of_int (TIME_TO_UPDATE c - 1) *
               (periodHalf (gaits s (gaitType s)) / of_int (2 * GAIT_POSITION_INCREMENT c)))) \<and>
         (cx = 50 \<and> cy = 0 \<and> legMode s = FIRST_STEP_ARC \<longrightarrow>
            ep_x (stepEndpoint (setStepEndpoint c cx cy s)) = 0 \<and>
            ep_y (stepEndpoint (setStepEndpoint c cx cy s)) = periodHalf (gaits s (gaitType s)) / 2)"
proof (intro conjI impI)
  show "(ep_x (stepEndpoint (setStepEndpoint c cx cy s)))\<^sup>2 +
         (ep_y (stepEndpoint (setStepEndpoint c cx cy s)))\<^sup>2 =
         (periodHalf (gaits s (gaitType s)) / 2)\<^sup>2"
    by (rule stepEndpoint_magnitude [OF nz])
next
  assume e: "cx = 0 \<or> cx dvd cy"
  show "ep_y (stepEndpoint (setStepEndpoint c cx cy s)) =
              (if legMode s = ACTIVE_WALKING_DRAW_BACK \<or> legMode s = FIRST_STEP_DRAW_BACK
               then - 1 else 1) *
              (periodHalf (gaits s (gaitType s)) / 2) * of_int cx /
                sqrt ((of_int cx)\<^sup>2 + (of_int cy)\<^sup>2)"
    using stepEndpoint_direction [OF nz e] by (rule conjunct1)
next
  assume e: "cx = 0 \<or> cx dvd cy"
  show "ep_x (stepEndpoint (setStepEndpoint c cx cy s)) =
              (if legMode s = ACTIVE_WALKING_DRAW_BACK \<or> legMode s = FIRST_STEP_DRAW_BACK
               then - 1 else 1) *
              (periodHalf (gaits s (gaitType s)) / 2) * of_int cy /
                sqrt ((of_int cx)\<^sup>2 + (of_int cy)\<^sup>2)"
    using stepEndpoint_direction [OF nz e] by (rule conjunct2)
next
  show "footPosX (setStepEndpoint c cx cy s) =
           footPosX s @ [GoTimed (ep_x (stepEndpoint (setStepEndpoint c cx cy s)))
             (float_to_int (of_int (TIME_TO_UPDATE c - 1) *
               (periodHalf (gaits s (gaitType s)) / of_int (2 * GAIT_POSITION_INCREMENT c))))
             LINEAR FORTHANDBACK]"
    by (subst setStepEndpoint_nonzero_shape [OF nz]) simp
next
  show "footPosY (setStepEndpoint c cx cy s) =
           footPosY s @ [GoTimed (ep_y (stepEndpoint (setStepEndpoint c cx cy s)))
             (float_to_int (of_int (TIME_TO_UPDATE c - 1) *
               (periodHalf (gaits s (gaitType s)) / of_int (2 * GAIT_POSITION_INCREMENT c))))
             LINEAR FORTHANDBACK]"
    by (subst setStepEndpoint_nonzero_shape [OF nz]) simp
next
  assume "1 < TIME_TO_UPDATE c \<and> 0 < GAIT_POSITION_INCREMENT c \<and>
          2 * real_of_int (GAIT_POSITION_INCREMENT c) \<le>
            real_of_int (TIME_TO_UPDATE c - 1) * periodHalf (gaits s (gaitType s))"
  then show "0 < float_to_int (of_int (TIME_TO_UPDATE c - 1) *
               (periodHalf (gaits s (gaitType s)) / of_int (2 * GAIT_POSITION_INCREMENT c)))"
    by (intro completionTime_positive) simp_all
next
  assume a: "cx = 50 \<and> cy = 0 \<and> legMode s = FIRST_STEP_ARC"
  then show "ep_x (stepEndpoint (setStepEndpoint c cx cy s)) = 0"
    by (simp add: stepEndpoint_50_0)
next
  assume a: "cx = 50 \<and> cy = 0 \<and> legMode s = FIRST_STEP_ARC"
  then show "ep_y (stepEndpoint (setStepEndpoint c cx cy s)) = periodHalf (gaits s (gaitType s)) / 2"
    by (simp add: stepEndpoint_50_0)
qed

theorem setStepEndpoint_projects_onto_circle_witness:
  "(50::int) \<noteq> 0 \<and> legMode (first_step_leg LEG_1) = FIRST_STEP_ARC \<and>
   ep_x (stepEndpoint (setStepEndpoint sample_consts 50 0 (first_step_leg LEG_1))) = 0 \<and>
   ep_y (stepEndpoint (setStepEndpoint sample_consts 50 0 (first_step_leg LEG_1))) = 70 \<and>
   footPosX (setStepEndpoint sample_consts 50 0 (first_step_leg LEG_1)) =
     [Go 0, GoTimed 0 266 LINEAR FORTHANDBACK] \<and>
   footPosY (setStepEndpoint sample_consts 50 0 (first_step_leg LEG_1)) =
     [Go 0, GoTimed 70 266 LINEAR FORTHANDBACK]"
  using setStepEndpoint_projects_onto_circle [of 50 0 sample_consts "first_step_leg LEG_1"]
  by (simp add: first_step_leg_eq sample_consts_def float_to_int_def)

lemma walking_leg_eq:
  "walking_leg l =
     \<lparr> legID = l,
       legMode = (if l = LEG_1 \<or> l = LEG_3 then FIRST_STEP_ARC else FIRST_STEP_DRAW_BACK),
       gaitType = TROT, robotHeight = 120,
       gaits = (\<lambda>g. \<lparr> amplitude = 50, periodHalf = 140 \<rparr>),
       footXYDrop = 0, previousUpdateTime = 999, wasAtOrigin = False,
       dynamicFootPosition = \<lparr> pos_x = 0, pos_y = 0, pos_z = 120 \<rparr>,
       stepEndpoint = \<lparr> ep_x = (if l = LEG_1 \<or> l = LEG_3 then 70 else - 70), ep_y = 0 \<rparr>,
       footPosX = [Go 0, GoTimed (if l = LEG_1 \<or> l = LEG_3 then 70 else - 70) 266 LINEAR FORTHANDBACK],
       footPosY = [Go 0, GoTimed 0 266 LINEAR FORTHANDBACK] \<rparr>"
  by (cases l)
     (simp_all add: walking_leg_def first_step_leg_eq setStepEndpoint_def Let_def
        ramp_go_timed_def sample_consts_def float_to_int_def)

subsection \<open>Mirrored legs\<close>

text \<open>
  C3. The claim: for the mirrored legs 2 and 3 the x output of \<open>update\<close> is the
  negation of the x output of a leg that is not mirrored, in the same phase and under the
  same control input. Legs 3 and 1 are both in \<open>FIRST_STEP_ARC\<close> with the same x
  interpolator, heading for 70: a scheduled update yields x = 70 for both. The negation
  is applied to the cached x, which the next statement overwrites with the sample.
\<close>

theorem update_x_not_mirrored:
  "legMode (walking_leg LEG_3) = legMode (walking_leg LEG_1) \<and>
   footPosX (walking_leg LEG_3) = footPosX (walking_leg LEG_1) \<and>
   fst (update sample_consts last_target 1019 WALKING (walking_leg LEG_3)) \<and>
   pos_x (dynamicFootPosition (snd (update sample_consts last_target 1019 WALKING (walking_leg LEG_3)))) = 70 \<and>
   pos_x (dynamicFootPosition (snd (update sample_consts last_target 1019 WALKING (walking_leg LEG_1)))) = 70"
  by (simp add: walking_leg_eq update_def Let_def u32_of_def sample_consts_def ramp_update_def
        last_target_def advanceDrop_def i16_of_def)

subsection \<open>The phase cycle\<close>

lemma inc_div:
  assumes "0 < (I::int)" "I dvd 70"
  shows "I * (70 div I) = 70" "0 < 70 div I"
proof -
  show e: "I * (70 div I) = 70" using assms(2) by simp
  show "0 < 70 div I"
  proof (rule ccontr)
    assume "\<not> 0 < 70 div I"
    then have "70 div I \<le> 0" by simp
    then have "I * (70 div I) \<le> 0" using assms(1) by (simp add: mult_le_0_iff)
    then show False using e by simp
  qed
qed

lemma mult_eq_70:
  assumes "0 < (I::int)" "I * n = 70"
  shows "(I * m = 70) = (m = n)" "(I * m = - 70) = (m = - n)"
proof -
  have "(I * m = 70) = (I * m = I * n)" using assms by simp
  also have "\<dots> = (m = n)" using assms(1) by simp
  finally show "(I * m = 70) = (m = n)" .
  have "(I * m = - 70) = (I * m = I * (- n))" using assms by simp
  also have "\<dots> = (m = - n)" using assms(1) by (simp only: mult_cancel_left) simp
  finally show "(I * m = - 70) = (m = - n)" .
qed

lemma mult_bounds_70:
  assumes "0 < (I::int)" "I * n = 70" "- n \<le> m" "m \<le> n"
  shows "- 70 \<le> I * m" "I * m \<le> 70"
proof -
  have "I * m \<le> I * n" using assms(1,4) by (simp add: mult_left_mono)
  then show "I * m \<le> 70" using assms(2) by simp
  have "I * (- n) \<le> I * m" using assms(1,3) by (intro mult_left_mono) simp_all
  then show "- 70 \<le> I * m" using assms(2) by simp
qed

lemma i16_of_small: "- 70 \<le> v \<Longrightarrow> v \<le> 70 \<Longrightarrow> i16_of v = v"
  by (simp add: i16_of_def)

lemma mod_succ_int:
  assumes "0 < (M::int)"
  shows "(a + 1) mod M = (if a mod M + 1 = M then 0 else a mod M + 1)"
proof -
  have b: "0 \<le> a mod M" "a mod M < M" using assms by simp_all
  have "(a + 1) mod M = (a mod M + 1) mod M" by (simp add: mod_add_left_eq)
  also have "\<dots> = (if a mod M + 1 = M then 0 else a mod M + 1)"
    using b by (auto simp add: mod_pos_pos_trivial)
  finally show ?thesis .
qed


lemma advanceDrop_frame:
  "gaits (advanceDrop c P s) = gaits s" "gaitType (advanceDrop c P s) = gaitType s"
  "legID (advanceDrop c P s) = legID s" "wasAtOrigin (advanceDrop c P s) = wasAtOrigin s"
  by (cases "legMode s"; simp add: advanceDrop_def Let_def)+

lemma step_arc:
  assumes I: "0 < I" "I * n = 70" and inc: "GAIT_POSITION_INCREMENT c = I"
      and m: "legMode s = FIRST_STEP_ARC \<or> legMode s = ACTIVE_WALKING_ARC"
      and d: "footXYDrop s = I * m" and r: "- n \<le> m" "m < n"
  shows "footXYDrop (advanceDrop c 140 s) = I * (m + 1)"
    and "legMode (advanceDrop c 140 s) = (if m + 1 = n then ACTIVE_WALKING_DRAW_BACK else legMode s)"
proof -
  define v where "v = I * (m + 1)"
  have b: "- 70 \<le> v" "v \<le> 70"
    unfolding v_def using mult_bounds_70 [OF I, of "m + 1"] r by simp_all
  have e: "footXYDrop s + I = v" by (simp add: d distrib_left v_def)
  have w: "i16_of (footXYDrop s + I) = v"
    unfolding e using b by (rule i16_of_small)
  have t: "(real_of_int v = 70) = (m + 1 = n)"
  proof -
    have "(real_of_int v = 70) = (real_of_int v = real_of_int 70)" by simp
    also have "\<dots> = (v = 70)" by (simp only: of_int_eq_iff)
    also have "\<dots> = (m + 1 = n)" unfolding v_def by (rule mult_eq_70 [OF I])
    finally show ?thesis .
  qed
  have "footXYDrop (advanceDrop c 140 s) = v"
    using m w t by (auto simp add: advanceDrop_def Let_def inc)
  then show "footXYDrop (advanceDrop c 140 s) = I * (m + 1)" by (simp add: v_def)
  show "legMode (advanceDrop c 140 s) = (if m + 1 = n then ACTIVE_WALKING_DRAW_BACK else legMode s)"
    using m w t by (auto simp add: advanceDrop_def Let_def inc)
qed

lemma step_back:
  assumes I: "0 < I" "I * n = 70" and inc: "GAIT_POSITION_INCREMENT c = I"
      and m: "legMode s = FIRST_STEP_DRAW_BACK \<or> legMode s = ACTIVE_WALKING_DRAW_BACK"
      and d: "footXYDrop s = I * m" and r: "- n < m" "m \<le> n"
  shows "footXYDrop (advanceDrop c 140 s) = I * (m - 1)"
    and "legMode (advanceDrop c 140 s) = (if m - 1 = - n then ACTIVE_WALKING_ARC else legMode s)"
proof -
  define v where "v = I * (m - 1)"
  have b: "- 70 \<le> v" "v \<le> 70"
    unfolding v_def using mult_bounds_70 [OF I, of "m - 1"] r by simp_all
  have e: "footXYDrop s - I = v" by (simp add: d right_diff_distrib v_def)
  have w: "i16_of (footXYDrop s - I) = v"
    unfolding e using b by (rule i16_of_small)
  have t: "(real_of_int v = - 70) = (m - 1 = - n)"
  proof -
    have "(real_of_int v = - 70) = (real_of_int v = real_of_int (- 70))" by simp
    also have "\<dots> = (v = - 70)" by (simp only: of_int_eq_iff)
    also have "\<dots> = (m - 1 = - n)" unfolding v_def by (rule mult_eq_70 [OF I])
    finally show ?thesis .
  qed
  have "footXYDrop (advanceDrop c 140 s) = v"
    using m w t by (auto simp add: advanceDrop_def Let_def inc)
  then show "footXYDrop (advanceDrop c 140 s) = I * (m - 1)" by (simp add: v_def)
  show "legMode (advanceDrop c 140 s) = (if m - 1 = - n then ACTIVE_WALKING_ARC else legMode s)"
    using m w t by (auto simp add: advanceDrop_def Let_def inc)
qed

lemma advanceDrop_cycle:
  assumes I: "0 < I" "I dvd 70" and inc: "GAIT_POSITION_INCREMENT c = I"
      and st: "legMode s = fst (cycle_phase I af k)" "footXYDrop s = snd (cycle_phase I af k)"
  shows "legMode (advanceDrop c 140 s) = fst (cycle_phase I af (Suc k)) \<and>
         footXYDrop (advanceDrop c 140 s) = snd (cycle_phase I af (Suc k))"
proof -
  define n where "n = 70 div I"
  have In: "I * n = 70" and npos: "0 < n"
    using inc_div [OF I] by (simp_all add: n_def)
  define j where "j = (int k - n) mod (4 * n)"
  define j' where "j' = (int (Suc k) - n) mod (4 * n)"
  have jb: "0 \<le> j" "j < 4 * n" using npos by (simp_all add: j_def)
  have sk: "int (Suc k) - n = (int k - n) + 1" by simp
  have n4: "0 < 4 * n" using npos by simp
  have j'eq: "j' = (if j + 1 = 4 * n then 0 else j + 1)"
    unfolding j'_def j_def sk by (rule mod_succ_int [OF n4])
  have cpk: "cycle_phase I af k =
      (if int k < n then
           (if af then (FIRST_STEP_ARC, I * int k) else (FIRST_STEP_DRAW_BACK, - (I * int k)))
         else if j < 2 * n then
           (if af then (ACTIVE_WALKING_DRAW_BACK, I * (n - j))
            else (ACTIVE_WALKING_ARC, I * (j - n)))
         else
           (if af then (ACTIVE_WALKING_ARC, I * (j - 3 * n))
            else (ACTIVE_WALKING_DRAW_BACK, I * (3 * n - j))))"
    by (simp add: cycle_phase_def Let_def n_def j_def)
  have cpk': "cycle_phase I af (Suc k) =
      (if int (Suc k) < n then
           (if af then (FIRST_STEP_ARC, I * int (Suc k)) else (FIRST_STEP_DRAW_BACK, - (I * int (Suc k))))
         else if j' < 2 * n then
           (if af then (ACTIVE_WALKING_DRAW_BACK, I * (n - j'))
            else (ACTIVE_WALKING_ARC, I * (j' - n)))
         else
           (if af then (ACTIVE_WALKING_ARC, I * (j' - 3 * n))
            else (ACTIVE_WALKING_DRAW_BACK, I * (3 * n - j'))))"
    unfolding cycle_phase_def Let_def n_def j'_def by (rule refl)
  have j0: "int k + 1 = n \<Longrightarrow> j' = 0"
    by (simp add: j'_def)
  have Bn: "I * n = I + I * int k" if e: "int k + 1 = n"
  proof -
    have "I * n = I * (int k + 1)" by (simp only: e)
    also have "\<dots> = I + I * int k" by (simp add: distrib_left)
    finally show ?thesis .
  qed
  have split: "int k + 1 < n \<or> int k + 1 = n \<or> (n \<le> int k \<and> j + 1 < 2 * n) \<or>
      (n \<le> int k \<and> j + 1 = 2 * n) \<or> (n \<le> int k \<and> 2 * n \<le> j \<and> j + 1 < 4 * n) \<or>
      (n \<le> int k \<and> j + 1 = 4 * n)"
    using jb by linarith
  show ?thesis
  proof (cases af)
    case True
    then have af: "af" by simp
    have A: ?thesis if h: "int k + 1 < n"
    proof -
      have br: "int k < n"
        using h npos jb by linarith+
      have lm: "legMode s = FIRST_STEP_ARC" and fd: "footXYDrop s = I * (int k)"
        using st af br unfolding cpk by simp_all
      have md: "legMode s = FIRST_STEP_ARC \<or> legMode s = ACTIVE_WALKING_ARC"
        using lm by simp
      have rg: "- n \<le> int k" "int k < n"
        using h npos jb by simp_all
      note r = step_arc [OF I(1) In inc md fd rg]
      show ?thesis
        unfolding cpk' r using h npos jb j'eq j0 Bn lm af by (simp add: algebra_simps)
    qed
    have B: ?thesis if h: "int k + 1 = n"
    proof -
      have br: "int k < n"
        using h npos jb by linarith+
      have lm: "legMode s = FIRST_STEP_ARC" and fd: "footXYDrop s = I * (int k)"
        using st af br unfolding cpk by simp_all
      have md: "legMode s = FIRST_STEP_ARC \<or> legMode s = ACTIVE_WALKING_ARC"
        using lm by simp
      have rg: "- n \<le> int k" "int k < n"
        using h npos jb by simp_all
      note r = step_arc [OF I(1) In inc md fd rg]
      show ?thesis
        unfolding cpk' r using h npos jb j'eq j0 Bn lm af by (simp add: algebra_simps)
    qed
    have C1: ?thesis if h: "n \<le> int k \<and> j + 1 < 2 * n"
    proof -
      have br: "\<not> int k < n" "j < 2 * n"
        using h npos jb by linarith+
      have lm: "legMode s = ACTIVE_WALKING_DRAW_BACK" and fd: "footXYDrop s = I * (n - j)"
        using st af br unfolding cpk by simp_all
      have md: "legMode s = FIRST_STEP_DRAW_BACK \<or> legMode s = ACTIVE_WALKING_DRAW_BACK"
        using lm by simp
      have rg: "- n < n - j" "n - j \<le> n"
        using h npos jb by simp_all
      note r = step_back [OF I(1) In inc md fd rg]
      show ?thesis
        unfolding cpk' r using h npos jb j'eq j0 Bn lm af by (simp add: algebra_simps)
    qed
    have C2: ?thesis if h: "n \<le> int k \<and> j + 1 = 2 * n"
    proof -
      have br: "\<not> int k < n" "j < 2 * n"
        using h npos jb by linarith+
      have lm: "legMode s = ACTIVE_WALKING_DRAW_BACK" and fd: "footXYDrop s = I * (n - j)"
        using st af br unfolding cpk by simp_all
      have md: "legMode s = FIRST_STEP_DRAW_BACK \<or> legMode s = ACTIVE_WALKING_DRAW_BACK"
        using lm by simp
      have rg: "- n < n - j" "n - j \<le> n"
        using h npos jb by simp_all
      note r = step_back [OF I(1) In inc md fd rg]
      show ?thesis
        unfolding cpk' r using h npos jb j'eq j0 Bn lm af by (simp add: algebra_simps)
    qed
    have C3: ?thesis if h: "n \<le> int k \<and> 2 * n \<le> j \<and> j + 1 < 4 * n"
    proof -
      have br: "\<not> int k < n" "\<not> j < 2 * n"
        using h npos jb by linarith+
      have lm: "legMode s = ACTIVE_WALKING_ARC" and fd: "footXYDrop s = I * (j - 3 * n)"
        using st af br unfolding cpk by simp_all
      have md: "legMode s = FIRST_STEP_ARC \<or> legMode s = ACTIVE_WALKING_ARC"
        using lm by simp
      have rg: "- n \<le> j - 3 * n" "j - 3 * n < n"
        using h npos jb by simp_all
      note r = step_arc [OF I(1) In inc md fd rg]
      show ?thesis
        unfolding cpk' r using h npos jb j'eq j0 Bn lm af by (simp add: algebra_simps)
    qed
    have C4: ?thesis if h: "n \<le> int k \<and> j + 1 = 4 * n"
    proof -
      have br: "\<not> int k < n" "\<not> j < 2 * n"
        using h npos jb by linarith+
      have lm: "legMode s = ACTIVE_WALKING_ARC" and fd: "footXYDrop s = I * (j - 3 * n)"
        using st af br unfolding cpk by simp_all
      have md: "legMode s = FIRST_STEP_ARC \<or> legMode s = ACTIVE_WALKING_ARC"
        using lm by simp
      have rg: "- n \<le> j - 3 * n" "j - 3 * n < n"
        using h npos jb by simp_all
      note r = step_arc [OF I(1) In inc md fd rg]
      show ?thesis
        unfolding cpk' r using h npos jb j'eq j0 Bn lm af by (simp add: algebra_simps)
    qed
    show ?thesis using split A B C1 C2 C3 C4 by blast
  next
    case False
    then have af: "\<not> af" by simp
    have A: ?thesis if h: "int k + 1 < n"
    proof -
      have br: "int k < n"
        using h npos jb by linarith+
      have lm: "legMode s = FIRST_STEP_DRAW_BACK" and fd: "footXYDrop s = I * (- int k)"
        using st af br unfolding cpk by simp_all
      have md: "legMode s = FIRST_STEP_DRAW_BACK \<or> legMode s = ACTIVE_WALKING_DRAW_BACK"
        using lm by simp
      have rg: "- n < - int k" "- int k \<le> n"
        using h npos jb by simp_all
      note r = step_back [OF I(1) In inc md fd rg]
      show ?thesis
        unfolding cpk' r using h npos jb j'eq j0 Bn lm af by (simp add: algebra_simps)
    qed
    have B: ?thesis if h: "int k + 1 = n"
    proof -
      have br: "int k < n"
        using h npos jb by linarith+
      have lm: "legMode s = FIRST_STEP_DRAW_BACK" and fd: "footXYDrop s = I * (- int k)"
        using st af br unfolding cpk by simp_all
      have md: "legMode s = FIRST_STEP_DRAW_BACK \<or> legMode s = ACTIVE_WALKING_DRAW_BACK"
        using lm by simp
      have rg: "- n < - int k" "- int k \<le> n"
        using h npos jb by simp_all
      note r = step_back [OF I(1) In inc md fd rg]
      show ?thesis
        unfolding cpk' r using h npos jb j'eq j0 Bn lm af by (simp add: algebra_simps)
    qed
    have C1: ?thesis if h: "n \<le> int k \<and> j + 1 < 2 * n"
    proof -
      have br: "\<not> int k < n" "j < 2 * n"
        using h npos jb by linarith+
      have lm: "legMode s = ACTIVE_WALKING_ARC" and fd: "footXYDrop s = I * (j - n)"
        using st af br unfolding cpk by simp_all
      have md: "legMode s = FIRST_STEP_ARC \<or> legMode s = ACTIVE_WALKING_ARC"
        using lm by simp
      have rg: "- n \<le> j - n" "j - n < n"
        using h npos jb by simp_all
      note r = step_arc [OF I(1) In inc md fd rg]
      show ?thesis
        unfolding cpk' r using h npos jb j'eq j0 Bn lm af by (simp add: algebra_simps)
    qed
    have C2: ?thesis if h: "n \<le> int k \<and> j + 1 = 2 * n"
    proof -
      have br: "\<not> int k < n" "j < 2 * n"
        using h npos jb by linarith+
      have lm: "legMode s = ACTIVE_WALKING_ARC" and fd: "footXYDrop s = I * (j - n)"
        using st af br unfolding cpk by simp_all
      have md: "legMode s = FIRST_STEP_ARC \<or> legMode s = ACTIVE_WALKING_ARC"
        using lm by simp
      have rg: "- n \<le> j - n" "j - n < n"
        using h npos jb by simp_all
      note r = step_arc [OF I(1) In inc md fd rg]
      show ?thesis
        unfolding cpk' r using h npos jb j'eq j0 Bn lm af by (simp add: algebra_simps)
    qed
    have C3: ?thesis if h: "n \<le> int k \<and> 2 * n \<le> j \<and> j + 1 < 4 * n"
    proof -
      have br: "\<not> int k < n" "\<not> j < 2 * n"
        using h npos jb by linarith+
      have lm: "legMode s = ACTIVE_WALKING_DRAW_BACK" and fd: "footXYDrop s = I * (3 * n - j)"
        using st af br unfolding cpk by simp_all
      have md: "legMode s = FIRST_STEP_DRAW_BACK \<or> legMode s = ACTIVE_WALKING_DRAW_BACK"
        using lm by simp
      have rg: "- n < 3 * n - j" "3 * n - j \<le> n"
        using h npos jb by simp_all
      note r = step_back [OF I(1) In inc md fd rg]
      show ?thesis
        unfolding cpk' r using h npos jb j'eq j0 Bn lm af by (simp add: algebra_simps)
    qed
    have C4: ?thesis if h: "n \<le> int k \<and> j + 1 = 4 * n"
    proof -
      have br: "\<not> int k < n" "\<not> j < 2 * n"
        using h npos jb by linarith+
      have lm: "legMode s = ACTIVE_WALKING_DRAW_BACK" and fd: "footXYDrop s = I * (3 * n - j)"
        using st af br unfolding cpk by simp_all
      have md: "legMode s = FIRST_STEP_DRAW_BACK \<or> legMode s = ACTIVE_WALKING_DRAW_BACK"
        using lm by simp
      have rg: "- n < 3 * n - j" "3 * n - j \<le> n"
        using h npos jb by simp_all
      note r = step_back [OF I(1) In inc md fd rg]
      show ?thesis
        unfolding cpk' r using h npos jb j'eq j0 Bn lm af by (simp add: algebra_simps)
    qed
    show ?thesis using split A B C1 C2 C3 C4 by blast
  qed
qed

lemma cycle_phase_props:
  assumes I: "0 < I" "I dvd 70"
  shows "- 70 \<le> snd (cycle_phase I af k)"
    and "snd (cycle_phase I af k) \<le> 70"
    and "fst (cycle_phase I af k) \<in>
           {if af then FIRST_STEP_ARC else FIRST_STEP_DRAW_BACK,
            ACTIVE_WALKING_ARC, ACTIVE_WALKING_DRAW_BACK}"
proof -
  define n where "n = 70 div I"
  have In: "I * n = 70" and npos: "0 < n"
    using inc_div [OF I] by (simp_all add: n_def)
  define j where "j = (int k - n) mod (4 * n)"
  have jb: "0 \<le> j" "j < 4 * n" using npos by (simp_all add: j_def)
  have cpk: "cycle_phase I af k =
      (if int k < n then
           (if af then (FIRST_STEP_ARC, I * int k) else (FIRST_STEP_DRAW_BACK, I * (- int k)))
         else if j < 2 * n then
           (if af then (ACTIVE_WALKING_DRAW_BACK, I * (n - j))
            else (ACTIVE_WALKING_ARC, I * (j - n)))
         else
           (if af then (ACTIVE_WALKING_ARC, I * (j - 3 * n))
            else (ACTIVE_WALKING_DRAW_BACK, I * (3 * n - j))))"
    by (simp add: cycle_phase_def Let_def n_def j_def)
  have b: "- 70 \<le> I * m \<and> I * m \<le> 70" if "- n \<le> m" "m \<le> n" for m
    using mult_bounds_70 [OF I(1) In that] by simp
  have b1: "- 70 \<le> I * int k \<and> I * int k \<le> 70" if "int k < n"
    using that by (intro b) simp_all
  have b2: "- 70 \<le> I * (- int k) \<and> I * (- int k) \<le> 70" if "int k < n"
    using that by (intro b) simp_all
  have b3: "- 70 \<le> I * (n - j) \<and> I * (n - j) \<le> 70" if "j < 2 * n"
    using that jb by (intro b) simp_all
  have b4: "- 70 \<le> I * (j - n) \<and> I * (j - n) \<le> 70" if "j < 2 * n"
    using that jb by (intro b) simp_all
  have b5: "- 70 \<le> I * (j - 3 * n) \<and> I * (j - 3 * n) \<le> 70" if "\<not> j < 2 * n"
    using that jb by (intro b) simp_all
  have b6: "- 70 \<le> I * (3 * n - j) \<and> I * (3 * n - j) \<le> 70" if "\<not> j < 2 * n"
    using that jb by (intro b) simp_all
  have both: "- 70 \<le> snd (cycle_phase I af k) \<and> snd (cycle_phase I af k) \<le> 70"
  proof (cases "int k < n")
    case True
    with b1 b2 show ?thesis unfolding cpk by (cases af) simp_all
  next
    case k: False
    show ?thesis
    proof (cases "j < 2 * n")
      case True
      with k b3 b4 show ?thesis unfolding cpk by (cases af) simp_all
    next
      case False
      with k b5 b6 show ?thesis unfolding cpk by (cases af) simp_all
    qed
  qed
  show "- 70 \<le> snd (cycle_phase I af k)" using both by (rule conjunct1)
  show "snd (cycle_phase I af k) \<le> 70" using both by (rule conjunct2)
  show "fst (cycle_phase I af k) \<in>
           {if af then FIRST_STEP_ARC else FIRST_STEP_DRAW_BACK,
            ACTIVE_WALKING_ARC, ACTIVE_WALKING_DRAW_BACK}"
    unfolding cpk by simp
qed

lemma cycle_phase_0:
  assumes I: "0 < I" "I dvd 70"
  shows "cycle_phase I af 0 = (if af then FIRST_STEP_ARC else FIRST_STEP_DRAW_BACK, 0)"
  using inc_div [OF I] by (simp add: cycle_phase_def Let_def)

lemma advanceDrop_cong:
  assumes "legMode t = legMode s" "footXYDrop t = footXYDrop s"
  shows "legMode (advanceDrop c P t) = legMode (advanceDrop c P s)"
    and "footXYDrop (advanceDrop c P t) = footXYDrop (advanceDrop c P s)"
  using assms by (cases "legMode s"; simp add: advanceDrop_def Let_def)+

lemma update_first_step:
  assumes "legMode s = STANDING"
  shows "update c val now WALKING s =
           (True, s\<lparr> previousUpdateTime := u32_of (now - 1),
                     legMode := (if legID s = LEG_1 \<or> legID s = LEG_3
                                 then FIRST_STEP_ARC else FIRST_STEP_DRAW_BACK),
                     footXYDrop := 0 \<rparr>)"
  using assms by (cases "legID s") (simp_all add: update_def Let_def)

lemma update_walking_eq:
  assumes nf: "\<not> (legMode s = STANDING \<and> m = WALKING)"
  shows "\<exists>t. legMode t = legMode s \<and> footXYDrop t = footXYDrop s \<and> gaits t = gaits s \<and>
           gaitType t = gaitType s \<and> legID t = legID s \<and> wasAtOrigin t = wasAtOrigin s \<and>
           update c val now m s =
             (if u32_of (now - previousUpdateTime s) mod TIME_TO_UPDATE c = 0
              then (True, (advanceDrop c (periodHalf (gaits s (gaitType s))) t)
                            \<lparr> previousUpdateTime := u32_of (now - 1) \<rparr>)
              else (False, s))"
proof -
  define s1 where "s1 = (if legID s = LEG_2 \<or> legID s = LEG_3
                         then s\<lparr> dynamicFootPosition := (dynamicFootPosition s)
                                 \<lparr> pos_x := pos_x (dynamicFootPosition s) * (- 1) \<rparr> \<rparr>
                         else s)"
  define s2 where "s2 = s1\<lparr> footPosX := snd (ramp_update val now (footPosX s1)),
                           dynamicFootPosition := (dynamicFootPosition s1)
                             \<lparr> pos_x := fst (ramp_update val now (footPosX s1)) \<rparr> \<rparr>"
  define s3 where "s3 = s2\<lparr> footPosY := snd (ramp_update val now (footPosY s2)),
                           dynamicFootPosition := (dynamicFootPosition s2)
                             \<lparr> pos_y := fst (ramp_update val now (footPosY s2)) \<rparr> \<rparr>"
  define s4 where "s4 = s3\<lparr> dynamicFootPosition := (dynamicFootPosition s3)
                           \<lparr> pos_z := getStepHeight s3 (footXYDrop s3) (legMode s3) \<rparr> \<rparr>"
  have u: "update c val now m s =
             (if u32_of (now - previousUpdateTime s) mod TIME_TO_UPDATE c = 0
              then (True, (advanceDrop c (periodHalf (gaits s (gaitType s))) s4)
                            \<lparr> previousUpdateTime := u32_of (now - 1) \<rparr>)
              else (False, s))"
    by (simp only: update_def Let_def case_prod_beta if_not_P [OF nf] s4_def s3_def s2_def s1_def)
  have a1: "legMode s1 = legMode s" "footXYDrop s1 = footXYDrop s" "gaits s1 = gaits s"
      "gaitType s1 = gaitType s" "legID s1 = legID s" "wasAtOrigin s1 = wasAtOrigin s"
    by (simp_all add: s1_def)
  have a4: "legMode s4 = legMode s" "footXYDrop s4 = footXYDrop s" "gaits s4 = gaits s"
      "gaitType s4 = gaitType s" "legID s4 = legID s" "wasAtOrigin s4 = wasAtOrigin s"
    by (simp_all add: s4_def s3_def s2_def a1)
  show ?thesis
    using a4 u by blast
qed

lemma update_walking:
  assumes "legMode s \<noteq> STANDING"
  shows "fst (update c val now m s) = (u32_of (now - previousUpdateTime s) mod TIME_TO_UPDATE c = 0)"
    and "\<not> fst (update c val now m s) \<Longrightarrow> snd (update c val now m s) = s"
    and "fst (update c val now m s) \<Longrightarrow>
           legMode (snd (update c val now m s)) =
             legMode (advanceDrop c (periodHalf (gaits s (gaitType s))) s) \<and>
           footXYDrop (snd (update c val now m s)) =
             footXYDrop (advanceDrop c (periodHalf (gaits s (gaitType s))) s)"
    and "gaits (snd (update c val now m s)) = gaits s"
    and "gaitType (snd (update c val now m s)) = gaitType s"
    and "legID (snd (update c val now m s)) = legID s"
proof -
  obtain t where t: "legMode t = legMode s" "footXYDrop t = footXYDrop s" "gaits t = gaits s"
      "gaitType t = gaitType s" "legID t = legID s"
    and u: "update c val now m s =
             (if u32_of (now - previousUpdateTime s) mod TIME_TO_UPDATE c = 0
              then (True, (advanceDrop c (periodHalf (gaits s (gaitType s))) t)
                            \<lparr> previousUpdateTime := u32_of (now - 1) \<rparr>)
              else (False, s))"
    using update_walking_eq [of s m c val now] assms by blast
  note cg = advanceDrop_cong [OF t(1,2), of c "periodHalf (gaits s (gaitType s))"]
  show "fst (update c val now m s) = (u32_of (now - previousUpdateTime s) mod TIME_TO_UPDATE c = 0)"
    unfolding u by simp
  show "\<not> fst (update c val now m s) \<Longrightarrow> snd (update c val now m s) = s"
    unfolding u by (simp split: if_splits)
  show "fst (update c val now m s) \<Longrightarrow>
           legMode (snd (update c val now m s)) =
             legMode (advanceDrop c (periodHalf (gaits s (gaitType s))) s) \<and>
           footXYDrop (snd (update c val now m s)) =
             footXYDrop (advanceDrop c (periodHalf (gaits s (gaitType s))) s)"
    unfolding u using cg by (simp split: if_splits)
  show "gaits (snd (update c val now m s)) = gaits s"
    unfolding u using t by (simp add: advanceDrop_frame)
  show "gaitType (snd (update c val now m s)) = gaitType s"
    unfolding u using t by (simp add: advanceDrop_frame)
  show "legID (snd (update c val now m s)) = legID s"
    unfolding u using t by (simp add: advanceDrop_frame)
qed

text \<open>An update leaves the origin latch alone.\<close>

lemma update_keeps_latch: "wasAtOrigin (snd (update c val now m s)) = wasAtOrigin s"
proof (cases "legMode s = STANDING \<and> m = WALKING")
  case True
  then show ?thesis by (simp add: update_first_step)
next
  case False
  obtain t where t: "wasAtOrigin t = wasAtOrigin s"
    and u: "update c val now m s =
             (if u32_of (now - previousUpdateTime s) mod TIME_TO_UPDATE c = 0
              then (True, (advanceDrop c (periodHalf (gaits s (gaitType s))) t)
                            \<lparr> previousUpdateTime := u32_of (now - 1) \<rparr>)
              else (False, s))"
    using update_walking_eq [OF False, of c val now] by blast
  show ?thesis
    unfolding u using t by (simp add: advanceDrop_frame)
qed

lemma run_cycle:
  assumes I: "0 < I" "I dvd 70" and inc: "GAIT_POSITION_INCREMENT c = I"
      and ph: "periodHalf (gaits s (gaitType s)) = 140"
      and st: "legMode s = fst (cycle_phase I af k)" "footXYDrop s = snd (cycle_phase I af k)"
  shows "legMode (snd (run c val ticks (k, s))) = fst (cycle_phase I af (fst (run c val ticks (k, s)))) \<and>
         footXYDrop (snd (run c val ticks (k, s))) = snd (cycle_phase I af (fst (run c val ticks (k, s)))) \<and>
         periodHalf (gaits (snd (run c val ticks (k, s))) (gaitType (snd (run c val ticks (k, s))))) = 140 \<and>
         legID (snd (run c val ticks (k, s))) = legID s"
  using ph st
proof (induction ticks arbitrary: k s)
  case Nil
  then show ?case by simp
next
  case (Cons tick ticks)
  obtain now m where tick: "tick = (now, m)" by (cases tick)
  define b where "b = fst (update c val now m s)"
  define s' where "s' = snd (update c val now m s)"
  have up: "update c val now m s = (b, s')" by (simp add: b_def s'_def)
  have ns: "legMode s \<noteq> STANDING"
    using cycle_phase_props(3) [OF I, of af k] Cons.prems(2) by (auto split: if_splits)
  note w = update_walking [OF ns, of c val now m]
  have ph': "periodHalf (gaits s' (gaitType s')) = 140"
    unfolding s'_def using w(4,5) Cons.prems(1) by simp
  have id': "legID s' = legID s" unfolding s'_def by (rule w(6))
  have st': "legMode s' = fst (cycle_phase I af (if b then Suc k else k)) \<and>
             footXYDrop s' = snd (cycle_phase I af (if b then Suc k else k))"
  proof (cases b)
    case True
    then have f: "fst (update c val now m s)" by (simp add: b_def)
    have "legMode s' = legMode (advanceDrop c 140 s) \<and> footXYDrop s' = footXYDrop (advanceDrop c 140 s)"
      unfolding s'_def using w(3) [OF f] Cons.prems(1) by simp
    then show ?thesis
      using advanceDrop_cycle [OF I inc Cons.prems(2,3)] True by simp
  next
    case False
    then have "\<not> fst (update c val now m s)" by (simp add: b_def)
    then have "s' = s" unfolding s'_def by (rule w(2))
    then show ?thesis using False Cons.prems by simp
  qed
  have r: "run c val (tick # ticks) (k, s) = run c val ticks (if b then Suc k else k, s')"
    by (simp add: tick up)
  show ?case
    unfolding r using Cons.IH [OF ph' conjunct1 [OF st'] conjunct2 [OF st']] id' by simp
qed

lemma advanceDrop_increment:
  assumes I: "0 < I" "I \<le> 70" and inc: "GAIT_POSITION_INCREMENT c = I"
      and b: "- 70 \<le> footXYDrop s" "footXYDrop s \<le> 70" and ns: "legMode s \<noteq> STANDING"
  shows "footXYDrop (advanceDrop c 140 s) =
           footXYDrop s + (if legMode s \<in> {FIRST_STEP_ARC, ACTIVE_WALKING_ARC} then I else - I)"
    and "legMode (advanceDrop c 140 s) =
           (if legMode s \<in> {FIRST_STEP_ARC, ACTIVE_WALKING_ARC} \<and> footXYDrop (advanceDrop c 140 s) = 70
            then ACTIVE_WALKING_DRAW_BACK
            else if legMode s \<in> {FIRST_STEP_DRAW_BACK, ACTIVE_WALKING_DRAW_BACK} \<and>
                    footXYDrop (advanceDrop c 140 s) = - 70
            then ACTIVE_WALKING_ARC
            else legMode s)"
proof -
  have up: "i16_of (footXYDrop s + I) = footXYDrop s + I"
    using I b by (simp add: i16_of_def)
  have dn: "i16_of (footXYDrop s - I) = footXYDrop s - I"
    using I b by (simp add: i16_of_def)
  have e1: "(real_of_int v = 70) = (v = 70)" for v
    using of_int_eq_iff [of v 70, where ?'a = real] by simp
  have e2: "(real_of_int v = - 70) = (v = - 70)" for v
    using of_int_eq_iff [of v "- 70", where ?'a = real] by simp
  show "footXYDrop (advanceDrop c 140 s) =
           footXYDrop s + (if legMode s \<in> {FIRST_STEP_ARC, ACTIVE_WALKING_ARC} then I else - I)"
    using ns by (cases "legMode s") (simp_all add: advanceDrop_def Let_def inc up dn)
  show "legMode (advanceDrop c 140 s) =
           (if legMode s \<in> {FIRST_STEP_ARC, ACTIVE_WALKING_ARC} \<and> footXYDrop (advanceDrop c 140 s) = 70
            then ACTIVE_WALKING_DRAW_BACK
            else if legMode s \<in> {FIRST_STEP_DRAW_BACK, ACTIVE_WALKING_DRAW_BACK} \<and>
                    footXYDrop (advanceDrop c 140 s) = - 70
            then ACTIVE_WALKING_ARC
            else legMode s)"
    using ns by (cases "legMode s") (simp_all add: advanceDrop_def Let_def inc up dn e1 e2)
qed

lemma cycle_phase_alternates:
  assumes I: "0 < I" "I dvd 70" and k: "70 div I \<le> int k"
  shows "fst (cycle_phase I af (k + nat (2 * (70 div I)))) =
           (if fst (cycle_phase I af k) = ACTIVE_WALKING_ARC
            then ACTIVE_WALKING_DRAW_BACK else ACTIVE_WALKING_ARC)"
proof -
  define n where "n = 70 div I"
  have npos: "0 < n" using inc_div [OF I] by (simp add: n_def)
  define j where "j = (int k - n) mod (4 * n)"
  have jb: "0 \<le> j" "j < 4 * n" using npos by (simp_all add: j_def)
  have "(int (k + nat (2 * n)) - n) mod (4 * n) = (int k - n + 2 * n) mod (4 * n)"
    using npos by simp
  also have "\<dots> = (j + 2 * n) mod (4 * n)"
    by (simp add: j_def mod_add_left_eq)
  also have "\<dots> = (if j < 2 * n then j + 2 * n else j - 2 * n)"
  proof (cases "j < 2 * n")
    case True
    then show ?thesis using jb by (simp add: mod_pos_pos_trivial)
  next
    case False
    have "j + 2 * n = j - 2 * n + 4 * n" by simp
    then have "(j + 2 * n) mod (4 * n) = (j - 2 * n + 4 * n) mod (4 * n)" by (rule arg_cong)
    also have "\<dots> = (j - 2 * n) mod (4 * n)" by (simp only: mod_add_self2)
    also have "\<dots> = j - 2 * n" using False jb by (simp add: mod_pos_pos_trivial)
    finally show ?thesis using False by simp
  qed
  finally have j2: "(int (k + nat (2 * n)) - n) mod (4 * n) = (if j < 2 * n then j + 2 * n else j - 2 * n)" .
  have k2: "\<not> int (k + nat (2 * n)) < n" using k npos by (simp add: n_def)
  have k1: "\<not> int k < n" using k by (simp add: n_def)
  show ?thesis
    unfolding cycle_phase_def Let_def n_def [symmetric] j2 if_not_P [OF k2] if_not_P [OF k1]
      j_def [symmetric]
    using jb npos by (cases "j < 2 * n"; cases af) simp_all
qed

text \<open>
  C5. A standing leg (gait table as \<open>init\<close> sets it, \<open>periodHalf = 140\<close>) is given
  \<open>WALKING\<close>: the update returns true and puts legs 1 and 3 into \<open>FIRST_STEP_ARC\<close>,
  legs 2 and 4 into \<open>FIRST_STEP_DRAW_BACK\<close>, with foot drop 0. After any further ticks,
  at any clock readings and in any robot mode, of which \<open>k\<close> were scheduled updates,
  the phase and the foot drop are those of \<open>cycle_phase\<close> at \<open>k\<close>: the first-step
  phase until the drop reaches plus or minus 70, then the two active phases in turn, each
  for a full sweep, without end. The drop stays within \<open>[-70, 70]\<close>; a scheduled update
  moves it by exactly one increment, up in the arc phases and down in the draw-back
  phases, and changes the phase exactly when the drop arrives at 70 or -70; an update off
  schedule changes nothing. The increment is taken to be a positive divisor of 70.
\<close>

theorem phase_cycle_closure:
  assumes I: "0 < GAIT_POSITION_INCREMENT c" "GAIT_POSITION_INCREMENT c dvd 70"
      and st: "legMode s = STANDING"
      and ph: "periodHalf (gaits s (gaitType s)) = 140"
      and rn: "run c val ticks (0, snd (update c val t0 WALKING s)) = (k, s')"
  shows "fst (update c val t0 WALKING s) \<and>
         legMode (snd (update c val t0 WALKING s)) =
           (if legID s = LEG_1 \<or> legID s = LEG_3 then FIRST_STEP_ARC else FIRST_STEP_DRAW_BACK) \<and>
         footXYDrop (snd (update c val t0 WALKING s)) = 0 \<and>
         (legMode s', footXYDrop s') =
           cycle_phase (GAIT_POSITION_INCREMENT c) (legID s = LEG_1 \<or> legID s = LEG_3) k \<and>
         - 70 \<le> footXYDrop s' \<and> footXYDrop s' \<le> 70 \<and>
         legMode s' \<in> {if legID s = LEG_1 \<or> legID s = LEG_3 then FIRST_STEP_ARC else FIRST_STEP_DRAW_BACK,
                        ACTIVE_WALKING_ARC, ACTIVE_WALKING_DRAW_BACK} \<and>
         (\<forall>now m.
            if fst (update c val now m s')
            then footXYDrop (snd (update c val now m s')) =
                   footXYDrop s' + (if legMode s' \<in> {FIRST_STEP_ARC, ACTIVE_WALKING_ARC}
                                    then GAIT_POSITION_INCREMENT c else - GAIT_POSITION_INCREMENT c) \<and>
                 legMode (snd (update c val now m s')) =
                   (if legMode s' \<in> {FIRST_STEP_ARC, ACTIVE_WALKING_ARC} \<and>
                       footXYDrop (snd (update c val now m s')) = 70
                    then ACTIVE_WALKING_DRAW_BACK
                    else if legMode s' \<in> {FIRST_STEP_DRAW_BACK, ACTIVE_WALKING_DRAW_BACK} \<and>
                            footXYDrop (snd (update c val now m s')) = - 70
                    then ACTIVE_WALKING_ARC
                    else legMode s')
            else snd (update c val now m s') = s') \<and>
         (70 div GAIT_POSITION_INCREMENT c \<le> int k \<longrightarrow>
            fst (cycle_phase (GAIT_POSITION_INCREMENT c) (legID s = LEG_1 \<or> legID s = LEG_3)
                   (k + nat (2 * (70 div GAIT_POSITION_INCREMENT c)))) =
              (if legMode s' = ACTIVE_WALKING_ARC
               then ACTIVE_WALKING_DRAW_BACK else ACTIVE_WALKING_ARC))"
proof -
  define af where "af = (legID s = LEG_1 \<or> legID s = LEG_3)"
  define s1 where "s1 = snd (update c val t0 WALKING s)"
  note f = update_first_step [OF st, of c val t0]
  have f1: "fst (update c val t0 WALKING s)" by (simp add: f)
  have m1: "legMode s1 = (if af then FIRST_STEP_ARC else FIRST_STEP_DRAW_BACK)"
    and d1: "footXYDrop s1 = 0"
    and ph1: "periodHalf (gaits s1 (gaitType s1)) = 140"
    and id1: "legID s1 = legID s"
    using ph by (simp_all add: s1_def f af_def)
  note c0 = cycle_phase_0 [OF I, of af]
  have st1: "legMode s1 = fst (cycle_phase (GAIT_POSITION_INCREMENT c) af 0)"
      "footXYDrop s1 = snd (cycle_phase (GAIT_POSITION_INCREMENT c) af 0)"
    by (simp_all add: c0 m1 d1)
  have rn': "run c val ticks (0, s1) = (k, s')" using rn by (simp add: s1_def)
  note rc = run_cycle [OF I refl ph1 st1, of val ticks, unfolded rn' fst_conv snd_conv]
  have cp: "(legMode s', footXYDrop s') = cycle_phase (GAIT_POSITION_INCREMENT c) af k"
    using rc by (simp add: prod_eq_iff)
  have ph': "periodHalf (gaits s' (gaitType s')) = 140" using rc by simp
  note pr = cycle_phase_props [OF I, of af k]
  have b: "- 70 \<le> footXYDrop s'" "footXYDrop s' \<le> 70"
    using pr(1,2) rc by simp_all
  have md: "legMode s' \<in> {if af then FIRST_STEP_ARC else FIRST_STEP_DRAW_BACK,
                        ACTIVE_WALKING_ARC, ACTIVE_WALKING_DRAW_BACK}"
    using pr(3) rc by simp
  then have ns: "legMode s' \<noteq> STANDING" by (auto split: if_splits)
  have le: "GAIT_POSITION_INCREMENT c \<le> 70"
    using I by (intro zdvd_imp_le) simp_all
  note inc = advanceDrop_increment [OF I(1) le refl b ns]
  have tick: "if fst (update c val now m s')
            then footXYDrop (snd (update c val now m s')) =
                   footXYDrop s' + (if legMode s' \<in> {FIRST_STEP_ARC, ACTIVE_WALKING_ARC}
                                    then GAIT_POSITION_INCREMENT c else - GAIT_POSITION_INCREMENT c) \<and>
                 legMode (snd (update c val now m s')) =
                   (if legMode s' \<in> {FIRST_STEP_ARC, ACTIVE_WALKING_ARC} \<and>
                       footXYDrop (snd (update c val now m s')) = 70
                    then ACTIVE_WALKING_DRAW_BACK
                    else if legMode s' \<in> {FIRST_STEP_DRAW_BACK, ACTIVE_WALKING_DRAW_BACK} \<and>
                            footXYDrop (snd (update c val now m s')) = - 70
                    then ACTIVE_WALKING_ARC
                    else legMode s')
            else snd (update c val now m s') = s'" for now m
  proof (cases "fst (update c val now m s')")
    case True
    note w = update_walking(3) [OF ns True, unfolded ph']
    have e1: "footXYDrop (snd (update c val now m s')) = footXYDrop (advanceDrop c 140 s')"
      and e2: "legMode (snd (update c val now m s')) = legMode (advanceDrop c 140 s')"
      using w by simp_all
    show ?thesis
      unfolding if_P [OF True] e1 e2 using inc by (intro conjI)
  next
    case False
    show ?thesis
      unfolding if_not_P [OF False] using False by (rule update_walking(2) [OF ns])
  qed
  have alt: "fst (cycle_phase (GAIT_POSITION_INCREMENT c) af
                   (k + nat (2 * (70 div GAIT_POSITION_INCREMENT c)))) =
              (if legMode s' = ACTIVE_WALKING_ARC
               then ACTIVE_WALKING_DRAW_BACK else ACTIVE_WALKING_ARC)"
    if "70 div GAIT_POSITION_INCREMENT c \<le> int k"
    using cycle_phase_alternates [OF I that, of af] rc by simp
  show ?thesis
    using f1 m1 d1 cp b md tick alt unfolding s1_def af_def by blast
qed

theorem phase_cycle_closure_witness:
  "0 < GAIT_POSITION_INCREMENT sample_consts \<and> GAIT_POSITION_INCREMENT sample_consts dvd 70 \<and>
   legMode (init 120 (new_planner LEG_1)) = STANDING \<and>
   fst (run sample_consts last_target [(1019, WALKING), (1020, WALKING), (1038, STATIC_STANDING)]
          (0, first_step_leg LEG_1)) = 2 \<and>
   legMode (snd (run sample_consts last_target [(1019, WALKING), (1020, WALKING), (1038, STATIC_STANDING)]
          (0, first_step_leg LEG_1))) = FIRST_STEP_ARC \<and>
   footXYDrop (snd (run sample_consts last_target [(1019, WALKING), (1020, WALKING), (1038, STATIC_STANDING)]
          (0, first_step_leg LEG_1))) = 10"
proof -
  define r where "r = run sample_consts last_target
     [(1019, WALKING), (1020, WALKING), (1038, STATIC_STANDING)] (0, first_step_leg LEG_1)"
  have k: "fst r = 2"
    unfolding r_def
    by (simp add: first_step_leg_eq update_def Let_def u32_of_def sample_consts_def ramp_update_def
        advanceDrop_def i16_of_def)
  have I: "0 < GAIT_POSITION_INCREMENT sample_consts" "GAIT_POSITION_INCREMENT sample_consts dvd 70"
    by (simp_all add: sample_consts_def)
  have st: "legMode (init 120 (new_planner LEG_1)) = STANDING"
    by (simp add: init_def reset_def)
  have ph: "periodHalf (gaits (init 120 (new_planner LEG_1)) (gaitType (init 120 (new_planner LEG_1)))) = 140"
    by (simp add: init_def reset_def DEFAULT_GAIT_def)
  have rn: "run sample_consts last_target [(1019, WALKING), (1020, WALKING), (1038, STATIC_STANDING)]
     (0, snd (update sample_consts last_target 1000 WALKING (init 120 (new_planner LEG_1)))) = (fst r, snd r)"
    by (simp add: r_def first_step_leg_def)
  have "(legMode (snd r), footXYDrop (snd r)) = cycle_phase 5 True 2"
    using phase_cycle_closure [OF I st ph rn] k by (simp add: sample_consts_def new_planner_def init_def reset_def)
  then have "legMode (snd r) = FIRST_STEP_ARC" "footXYDrop (snd r) = 10"
    by (simp_all add: cycle_phase_def Let_def)
  then show ?thesis
    using I st k unfolding r_def by simp
qed

end
